theory Spec2Isabelle
  imports Complex_Main "HOL-Library.AList" "HOL-Library.Multiset" "HOL-Library.Log_Nat"
begin

section \<open>Indicators (src/indicators.py)\<close>

text \<open>
  A \<^verbatim>\<open>pd.Series\<close> is a list of labelled samples. A sample is \<open>None\<close> where pandas holds
  NaN, and otherwise a float64, given as the rational number that it is (the infinite
  floats are not modelled). The argument \<^verbatim>\<open>window\<close> is any Python object: \<open>IntW w\<close> when
  \<^verbatim>\<open>isinstance(window, int)\<close>, \<open>NonInt\<close> otherwise. The prints are left out here.

  The arithmetic of line 26 is the library's: \<^verbatim>\<open>rolling(...).mean()\<close> works in float64, on
  sums that it carries along the series, and every operation rounds. What it holds at a
  position is a float64, and need not be the mean of the samples of the window. That
  number is a parameter of the model: \<open>lib w xs i\<close> is what the library holds at position
  \<open>i\<close> for the window \<open>w\<close> and the samples \<open>xs\<close>, when none of the samples
  \<open>i - w + 1 .. i\<close> is NaN.
\<close>

type_synonym 'i series = "('i \<times> rat option) list"

datatype window = IntW int | NonInt

type_synonym rolling = "nat \<Rightarrow> rat option list \<Rightarrow> nat \<Rightarrow> rat"

text \<open>
  One position of \<^verbatim>\<open>rolling(window=w, min_periods=w).mean()\<close> with \<open>w\<close> samples behind
  it: NaN when one of the samples \<open>i - w + 1 .. i\<close> is NaN, since fewer than
  \<^verbatim>\<open>min_periods\<close> observations are there.
\<close>

definition window_mean :: "rolling \<Rightarrow> nat \<Rightarrow> rat option list \<Rightarrow> nat \<Rightarrow> rat option" where
  "window_mean lib w xs i =
     (if None \<in> set (take w (drop (i + 1 - w) xs)) then None else Some (lib w xs i))"

text \<open>
  \<^verbatim>\<open>rolling(window=w, min_periods=w).mean()\<close>: position \<open>i\<close> sees the samples
  \<open>i - w + 1 .. i\<close>, and is NaN while fewer than \<open>w\<close> samples are there.
\<close>

definition rolling_mean :: "rolling \<Rightarrow> nat \<Rightarrow> rat option list \<Rightarrow> rat option list" where
  "rolling_mean lib w xs =
     map (\<lambda>i. if i + 1 < w then None else window_mean lib w xs i) [0..<length xs]"

definition calculate_sma :: "rolling \<Rightarrow> 'i series option \<Rightarrow> window \<Rightarrow> 'i series" where
  "calculate_sma lib data_series window =
     (case data_series of
        None \<Rightarrow> []
      | Some s \<Rightarrow>
          (case window of
             NonInt \<Rightarrow> []
           | IntW w \<Rightarrow>
               if s = [] \<or> w \<le> 0 then []
               else if int (length s) < w then map (\<lambda>(l, _). (l, None)) s
               else zip (map fst s) (rolling_mean lib (nat w) (map snd s))))"

section \<open>Values and tables (pandas)\<close>

text \<open>
  A \<^verbatim>\<open>datetime.date\<close> is its proleptic Gregorian ordinal; a \<^verbatim>\<open>pd.Timestamp\<close> is a
  calendar date and a time of day in nanoseconds. A cell of a table is a finite number
  (\<open>Num\<close>; the infinite floats are not modelled), a string, a missing value (\<open>NA\<close>:
  \<^verbatim>\<open>None\<close>, NaN or \<^verbatim>\<open>pd.NA\<close>), a timestamp, the missing timestamp \<open>NaT\<close>, or a date.
\<close>

type_synonym date = int

datatype timestamp = Timestamp (ts_date: date) (ts_time: nat)

datatype cell = Num rat | Str string | NA | Stamp timestamp | NaT | Date date

datatype py_error = ValueError | TypeError | KeyError | NameError string | OtherError

text \<open>
  The parsers of the library are parameters of the model: what \<^verbatim>\<open>pd.to_numeric\<close> makes
  of a value that is neither a number nor missing (\<open>None\<close>: it cannot be parsed), and what
  \<^verbatim>\<open>pd.to_datetime\<close> makes of a string or a number (an exception, \<open>NaT\<close> or a timestamp).
\<close>

record pandas =
  numeric_of_obj :: "cell \<Rightarrow> rat option"
  datetime_of_obj :: "cell \<Rightarrow> py_error + timestamp option"

text \<open>One element of \<^verbatim>\<open>pd.to_numeric(values, errors='coerce')\<close>.\<close>

fun to_numeric :: "pandas \<Rightarrow> cell \<Rightarrow> cell" where
  "to_numeric pd (Num x) = Num x"
| "to_numeric pd NA = NA"
| "to_numeric pd c = (case numeric_of_obj pd c of None \<Rightarrow> NA | Some x \<Rightarrow> Num x)"

text \<open>One element of \<^verbatim>\<open>pd.to_datetime(values)\<close>, with the default \<^verbatim>\<open>errors='raise'\<close>.\<close>

fun to_datetime :: "pandas \<Rightarrow> cell \<Rightarrow> py_error + cell" where
  "to_datetime pd (Stamp t) = Inr (Stamp t)"
| "to_datetime pd NaT = Inr NaT"
| "to_datetime pd NA = Inr NaT"
| "to_datetime pd (Date d) = Inr (Stamp (Timestamp d 0))"
| "to_datetime pd c =
     (case datetime_of_obj pd c of
        Inl e \<Rightarrow> Inl e
      | Inr None \<Rightarrow> Inr NaT
      | Inr (Some t) \<Rightarrow> Inr (Stamp t))"

text \<open>\<^verbatim>\<open>pd.to_datetime\<close> over a column or an index: the first value that fails raises.\<close>

fun to_datetime_all :: "pandas \<Rightarrow> cell list \<Rightarrow> py_error + cell list" where
  "to_datetime_all pd [] = Inr []"
| "to_datetime_all pd (c # cs) =
     (case to_datetime pd c of
        Inl e \<Rightarrow> Inl e
      | Inr t \<Rightarrow>
          (case to_datetime_all pd cs of
             Inl e \<Rightarrow> Inl e
           | Inr ts \<Rightarrow> Inr (t # ts)))"

text \<open>One element of \<^verbatim>\<open>.dt.date\<close> on a datetime column: the date without the time of day.\<close>

fun dt_date :: "cell \<Rightarrow> cell" where
  "dt_date (Stamp t) = Date (ts_date t)"
| "dt_date c = NaT"

fun is_datetime :: "cell \<Rightarrow> bool" where
  "is_datetime (Stamp t) = True"
| "is_datetime NaT = True"
| "is_datetime c = False"

fun isna :: "cell \<Rightarrow> bool" where
  "isna NA = True"
| "isna NaT = True"
| "isna c = False"

text \<open>\<open><\<close> on two float cells; a comparison with NaN is false.\<close>

fun lt :: "cell \<Rightarrow> cell \<Rightarrow> bool" where
  "lt (Num a) (Num b) = (a < b)"
| "lt a b = False"

text \<open>
  A \<^verbatim>\<open>pd.DataFrame\<close>: the name of its index, whether the index is a
  \<^verbatim>\<open>pd.DatetimeIndex\<close>, the column labels, and the rows, each with its index label and
  its cells by column label. The column labels of a table are distinct strings, and every
  row has a cell for every column.
\<close>

type_synonym row = "cell \<times> (string \<times> cell) list"

record frame =
  index_name :: "string option"
  index_is_datetime :: bool
  columns :: "string list"
  rows :: "row list"

definition empty_frame :: frame where
  "empty_frame = \<lparr>index_name = None, index_is_datetime = False, columns = [], rows = []\<rparr>"

definition df_empty :: "frame \<Rightarrow> bool" where
  "df_empty df \<longleftrightarrow> rows df = [] \<or> columns df = []"

definition cell_at :: "row \<Rightarrow> string \<Rightarrow> cell" where
  "cell_at r c = (case map_of (snd r) c of Some v \<Rightarrow> v | None \<Rightarrow> NA)"

text \<open>\<^verbatim>\<open>df[c]\<close> and \<^verbatim>\<open>df.index\<close>, as lists of values.\<close>

definition col :: "frame \<Rightarrow> string \<Rightarrow> cell list" where
  "col df c = map (\<lambda>r. cell_at r c) (rows df)"

definition index_labels :: "frame \<Rightarrow> cell list" where
  "index_labels df = map fst (rows df)"

text \<open>\<^verbatim>\<open>df[c] = values\<close>: replaces the column, or appends it as the last one.\<close>

definition set_col :: "string \<Rightarrow> cell list \<Rightarrow> frame \<Rightarrow> frame" where
  "set_col c vs df =
     df\<lparr>columns := (if c \<in> set (columns df) then columns df else columns df @ [c]),
        rows := map (\<lambda>(r, v). (fst r, AList.update c v (snd r))) (zip (rows df) vs)\<rparr>"

text \<open>\<^verbatim>\<open>df.index = labels\<close>, where the labels keep the name of the index.\<close>

definition assign_index :: "cell list \<Rightarrow> frame \<Rightarrow> frame" where
  "assign_index ls df =
     df\<lparr>index_is_datetime := list_all is_datetime ls,
        rows := map (\<lambda>(l, r). (l, snd r)) (zip ls (rows df))\<rparr>"

text \<open>\<^verbatim>\<open>df.set_index(c, drop=False)\<close>: a new table, indexed by column \<open>c\<close>, which stays.\<close>

definition set_index :: "string \<Rightarrow> frame \<Rightarrow> frame" where
  "set_index c df =
     df\<lparr>index_name := Some c,
        index_is_datetime := list_all is_datetime (col df c),
        rows := map (\<lambda>r. (cell_at r c, snd r)) (rows df)\<rparr>"

text \<open>
  \<^verbatim>\<open>df.reset_index()\<close>: the index becomes the first column, under the name of the index
  (\<^verbatim>\<open>index\<close>, or \<^verbatim>\<open>level_0\<close>, for an index without a name), and the rows are numbered
  from \<open>0\<close>. pandas refuses to insert a column whose label the table already has:
  \<^verbatim>\<open>ValueError: cannot insert date, already exists\<close>.
\<close>

definition index_column :: "frame \<Rightarrow> string" where
  "index_column df =
     (case index_name df of
        Some n \<Rightarrow> n
      | None \<Rightarrow> if ''index'' \<notin> set (columns df) then ''index'' else ''level_0'')"

definition reset_index :: "frame \<Rightarrow> py_error + frame" where
  "reset_index df =
     (let name = index_column df
      in if name \<in> set (columns df) then Inl ValueError
         else Inr \<lparr>index_name = None, index_is_datetime = False,
                   columns = name # columns df,
                   rows = map (\<lambda>(i, r). (Num (of_nat i), (name, fst r) # snd r))
                            (enumerate 0 (rows df))\<rparr>)"

text \<open>\<^verbatim>\<open>df.dropna(subset=cols)\<close>: the rows with no missing value in the columns \<open>cols\<close>.\<close>

definition dropna :: "string list \<Rightarrow> frame \<Rightarrow> frame" where
  "dropna cols df =
     df\<lparr>rows := filter (\<lambda>r. list_all (\<lambda>c. \<not> isna (cell_at r c)) cols) (rows df)\<rparr>"

text \<open>\<^verbatim>\<open>df[cols]\<close>: a new table of the columns \<open>cols\<close>, in this order.\<close>

definition select :: "string list \<Rightarrow> frame \<Rightarrow> py_error + frame" where
  "select cols df =
     (if \<not> set cols \<subseteq> set (columns df) then Inl KeyError
      else Inr (df\<lparr>columns := cols,
                  rows := map (\<lambda>r. (fst r, map (\<lambda>c. (c, cell_at r c)) cols)) (rows df)\<rparr>))"

subsection \<open>Objects\<close>

text \<open>
  Tables are mutable objects. The heap lists the tables that exist; a reference is a
  position in it. \<open>new\<close> allocates a table; \<open>h[a := df]\<close> changes the table at \<open>a\<close> in
  place. The temporary tables of an expression that nothing refers to afterwards are not
  allocated.
\<close>

type_synonym ref = nat

type_synonym heap = "frame list"

definition new :: "frame \<Rightarrow> heap \<Rightarrow> ref \<times> heap" where
  "new df h = (length h, h @ [df])"

section \<open>The cleaning pipeline (src/data_cleaner.py)\<close>

text \<open>What the function prints, one constructor for each message.\<close>

datatype msg =
    NoData
  | Cleaning nat
  | MissingColumns "string list"
  | UsedIndexAsDate
  | NeedsDate
  | NoDatetimeIndex
  | DroppedRows nat
  | BecameEmpty
  | HighBelowLow nat
  | OutsideHighLow nat nat
  | ZeroVolume nat
  | NegativeValues
  | Finished nat
  | DateLost

text \<open>
  Where control is after a part of the function: it goes on with the table that
  \<^verbatim>\<open>df_cleaned\<close> refers to, it has returned, or it has raised.
\<close>

datatype flow = Continue ref | Return "ref option" | Raise py_error

type_synonym state = "flow \<times> heap \<times> msg list"

definition and_then :: "state \<Rightarrow> (ref \<Rightarrow> heap \<Rightarrow> state) \<Rightarrow> state" where
  "and_then s k =
     (case s of
        (Continue c, h, ms) \<Rightarrow> (case k c h of (f, h', ms') \<Rightarrow> (f, h', ms @ ms'))
      | _ \<Rightarrow> s)"

definition ohlcv_cols :: "string list" where
  "ohlcv_cols = [''open'', ''high'', ''low'', ''close'', ''volume'']"

definition final_cols :: "string list" where
  "final_cols = [''ticker'', ''date'', ''open'', ''high'', ''low'', ''close'', ''volume'']"

text \<open>Lines 19 to 30: the argument is checked and copied.\<close>

definition check_input :: "heap \<Rightarrow> ref option \<Rightarrow> state" where
  "check_input h df =
     (case df of
        None \<Rightarrow> (Return None, h, [NoData])
      | Some a \<Rightarrow>
          if df_empty (h ! a) then (Return None, h, [NoData])
          else
            let (c, h1) = new (h ! a) h;
                ms = [Cleaning (length (rows (h ! a)))]
            in if \<not> set ohlcv_cols \<subseteq> set (columns (h1 ! c))
               then (Return None, h1,
                     ms @ [MissingColumns (filter (\<lambda>n. n \<notin> set (columns (h1 ! c))) ohlcv_cols)])
               else (Continue c, h1, ms))"

text \<open>
  Lines 33 to 52: the index becomes a \<^verbatim>\<open>DatetimeIndex\<close> and the column \<^verbatim>\<open>date\<close> a copy
  of it. Line 37 is outside the \<^verbatim>\<open>try\<close>; \<^verbatim>\<open>set_index\<close> on line 38 makes a new table.
\<close>

definition index_checked :: "state \<Rightarrow> state" where
  "index_checked s =
     (case s of
        (Continue c, h, ms) \<Rightarrow>
          if \<not> index_is_datetime (h ! c) then (Return None, h, ms @ [NoDatetimeIndex])
          else s
      | _ \<Rightarrow> s)"

definition ensure_index :: "pandas \<Rightarrow> ref \<Rightarrow> heap \<Rightarrow> state" where
  "ensure_index pd c h =
     index_checked
       (if index_is_datetime (h ! c)
        then (Continue c, h[c := set_col ''date'' (index_labels (h ! c)) (h ! c)], [])
        else if ''date'' \<in> set (columns (h ! c)) then
          (case to_datetime_all pd (col (h ! c) ''date'') of
             Inl e \<Rightarrow> (Raise e, h, [])
           | Inr ds \<Rightarrow>
               let h1 = h[c := set_col ''date'' ds (h ! c)];
                   (c2, h2) = new (set_index ''date'' (h1 ! c)) h1
               in (Continue c2, h2, []))
        else
          (case to_datetime_all pd (index_labels (h ! c)) of
             Inl e \<Rightarrow>
               if e = TypeError \<or> e = ValueError then (Return None, h, [NeedsDate])
               else (Raise e, h, [])
           | Inr ls \<Rightarrow>
               let h1 = h[c := assign_index ls (h ! c)];
                   h2 = h1[c := set_col ''date'' (index_labels (h1 ! c)) (h1 ! c)]
               in (Continue c, h2, [UsedIndexAsDate])))"

text \<open>Lines 56 and 57: each of the five columns is converted to numbers.\<close>

definition coerce_numeric :: "pandas \<Rightarrow> ref \<Rightarrow> heap \<Rightarrow> state" where
  "coerce_numeric pd c h =
     (Continue c,
      foldl (\<lambda>h n. h[c := set_col n (map (to_numeric pd) (col (h ! c) n)) (h ! c)]) h ohlcv_cols,
      [])"

text \<open>Lines 60 to 69: the rows with a missing value are dropped, in place.\<close>

definition drop_incomplete :: "ref \<Rightarrow> heap \<Rightarrow> state" where
  "drop_incomplete c h =
     (let initial_rows = length (rows (h ! c));
          h1 = h[c := dropna ohlcv_cols (h ! c)];
          rows_dropped = initial_rows - length (rows (h1 ! c));
          ms = (if rows_dropped > 0 then [DroppedRows rows_dropped] else [])
      in if df_empty (h1 ! c) then (Return None, h1, ms @ [BecameEmpty])
         else (Continue c, h1, ms))"

text \<open>Lines 73 to 94: the anomalies are counted and printed.\<close>

definition high_below_low :: "row \<Rightarrow> bool" where
  "high_below_low r \<longleftrightarrow> lt (cell_at r ''high'') (cell_at r ''low'')"

definition outside_high_low :: "string \<Rightarrow> row \<Rightarrow> bool" where
  "outside_high_low n r \<longleftrightarrow>
     lt (cell_at r ''high'') (cell_at r n) \<or> lt (cell_at r n) (cell_at r ''low'')"

definition zero_volume :: "row \<Rightarrow> bool" where
  "zero_volume r \<longleftrightarrow> cell_at r ''volume'' = Num 0"

definition negative_value :: "row \<Rightarrow> bool" where
  "negative_value r \<longleftrightarrow> list_ex (\<lambda>n. lt (cell_at r n) (Num 0)) ohlcv_cols"

definition anomaly_report :: "row list \<Rightarrow> msg list" where
  "anomaly_report rs =
     (let invalid_hl = filter high_below_low rs;
          invalid_c = filter (outside_high_low ''close'') rs;
          invalid_o = filter (outside_high_low ''open'') rs;
          zero_vol = filter zero_volume rs
      in (if invalid_hl \<noteq> [] then [HighBelowLow (length invalid_hl)] else []) @
         (if invalid_c \<noteq> [] \<or> invalid_o \<noteq> []
          then [OutsideHighLow (length invalid_c) (length invalid_o)] else []) @
         (if zero_vol \<noteq> [] then [ZeroVolume (length zero_vol)] else []) @
         (if list_ex negative_value rs then [NegativeValues] else []) @
         [Finished (length rs)])"

definition validate :: "ref \<Rightarrow> heap \<Rightarrow> state" where
  "validate c h = (Continue c, h, anomaly_report (rows (h ! c)))"

text \<open>
  Lines 98 to 112: the index goes back to a column, the dates lose their time of day,
  the ticker is attached, and the seven columns are selected into a new table.
\<close>

definition finish :: "pandas \<Rightarrow> string \<Rightarrow> ref \<Rightarrow> heap \<Rightarrow> state" where
  "finish pd ticker c h =
     (case (if index_is_datetime (h ! c)
            then (case reset_index (h ! c) of Inl e \<Rightarrow> Inl e | Inr df \<Rightarrow> Inr (h[c := df]))
            else Inr h) of
        Inl e \<Rightarrow> (Raise e, h, [])
      | Inr h1 \<Rightarrow>
          if ''date'' \<notin> set (columns (h1 ! c)) then (Return None, h1, [DateLost])
          else
            (case to_datetime_all pd (col (h1 ! c) ''date'') of
               Inl e \<Rightarrow> (Raise e, h1, [])
             | Inr ds \<Rightarrow>
                 let h2 = h1[c := set_col ''date'' (map dt_date ds) (h1 ! c)];
                     h3 = h2[c := set_col ''ticker''
                                  (replicate (length (rows (h2 ! c))) (Str ticker)) (h2 ! c)]
                 in (case select final_cols (h3 ! c) of
                       Inl e \<Rightarrow> (Raise e, h3, [])
                     | Inr df \<Rightarrow> let (r, h4) = new df h3 in (Return (Some r), h4, []))))"

text \<open>
  The function: what it returns or raises, the heap it leaves, and what it printed.
  \<open>df\<close> is \<open>None\<close> or a reference to the caller's table.
\<close>

fun result_of :: "flow \<Rightarrow> py_error + ref option" where
  "result_of (Return r) = Inr r"
| "result_of (Raise e) = Inl e"
| "result_of (Continue c) = Inr None"

definition clean_ohlcv_data ::
  "pandas \<Rightarrow> heap \<Rightarrow> ref option \<Rightarrow> string \<Rightarrow> (py_error + ref option) \<times> heap \<times> msg list" where
  "clean_ohlcv_data pd h df ticker =
     (case and_then (and_then (and_then (and_then (and_then
             (check_input h df) (ensure_index pd)) (coerce_numeric pd))
             drop_incomplete) validate) (finish pd ticker) of
        (f, h', ms) \<Rightarrow> (result_of f, h', ms))"

subsection \<open>Notions for stating the properties\<close>

text \<open>
  A row is complete when each of its five OHLCV cells is a number, or parses as one. Its
  date key is the calendar date of its index label. Its canonical record is what the
  returned table holds for it: the ticker, the date key and the five numbers.
\<close>

definition dt_of :: "pandas \<Rightarrow> cell \<Rightarrow> cell" where
  "dt_of pd c = (case to_datetime pd c of Inr t \<Rightarrow> t | Inl e \<Rightarrow> NaT)"

definition complete :: "pandas \<Rightarrow> row \<Rightarrow> bool" where
  "complete pd r \<longleftrightarrow> list_all (\<lambda>n. to_numeric pd (cell_at r n) \<noteq> NA) ohlcv_cols"

definition date_key :: "pandas \<Rightarrow> row \<Rightarrow> cell" where
  "date_key pd r = dt_date (dt_of pd (fst r))"

definition canonical :: "pandas \<Rightarrow> string \<Rightarrow> row \<Rightarrow> (string \<times> cell) list" where
  "canonical pd ticker r =
     [(''ticker'', Str ticker), (''date'', date_key pd r),
      (''open'', to_numeric pd (cell_at r ''open'')),
      (''high'', to_numeric pd (cell_at r ''high'')),
      (''low'', to_numeric pd (cell_at r ''low'')),
      (''close'', to_numeric pd (cell_at r ''close'')),
      (''volume'', to_numeric pd (cell_at r ''volume''))]"

text \<open>A calendar date without a time of day, or the missing date.\<close>

fun is_date :: "cell \<Rightarrow> bool" where
  "is_date (Date d) = True"
| "is_date NaT = True"
| "is_date c = False"

text \<open>A row with at least one of the anomalies that lines 73 to 92 look for.\<close>

definition anomalous :: "row \<Rightarrow> bool" where
  "anomalous r \<longleftrightarrow>
     high_below_low r \<or> outside_high_low ''close'' r \<or> outside_high_low ''open'' r \<or>
     zero_volume r \<or> negative_value r"

text \<open>
  For the proofs: a row with one cell replaced, a row with the columns \<open>ns\<close> converted,
  the function from line 55 on, and the states that leave every table of \<open>h0\<close> as it is.
\<close>

definition upd :: "string \<Rightarrow> cell \<Rightarrow> row \<Rightarrow> row" where
  "upd c v r = (fst r, AList.update c v (snd r))"

definition coerce_row :: "pandas \<Rightarrow> string list \<Rightarrow> row \<Rightarrow> row" where
  "coerce_row pd ns r = foldl (\<lambda>r n. upd n (to_numeric pd (cell_at r n)) r) r ns"

definition after_index :: "pandas \<Rightarrow> string \<Rightarrow> state \<Rightarrow> state" where
  "after_index pd ticker s =
     and_then (and_then (and_then (and_then s (coerce_numeric pd)) drop_incomplete) validate)
       (finish pd ticker)"

definition keeps :: "heap \<Rightarrow> state \<Rightarrow> bool" where
  "keeps h0 s \<longleftrightarrow>
     (case s of (f, h, ms) \<Rightarrow>
        take (length h0) h = h0 \<and>
        (case f of Continue c \<Rightarrow> length h0 \<le> c \<and> c < length h | _ \<Rightarrow> True))"

text \<open>An instance of the library for the examples: it parses digit strings only.\<close>

fun digits_value :: "nat \<Rightarrow> string \<Rightarrow> nat option" where
  "digits_value acc [] = Some acc"
| "digits_value acc (c # cs) =
     (let n = (of_char c :: nat)
      in if 48 \<le> n \<and> n \<le> 57 then digits_value (10 * acc + (n - 48)) cs else None)"

definition example_pd :: pandas where
  "example_pd =
     \<lparr>numeric_of_obj =
        (\<lambda>c. case c of Str (d # ds) \<Rightarrow> map_option of_nat (digits_value 0 (d # ds)) | _ \<Rightarrow> None),
      datetime_of_obj = (\<lambda>c. Inl ValueError)\<rparr>"

text \<open>
  A raw table for the examples, indexed by timestamps: a row of 2024-01-01 whose close
  cannot be parsed, and two rows of 2024-01-02, the second one with high below low and
  with no volume.
\<close>

definition example_row :: "date \<Rightarrow> nat \<Rightarrow> cell list \<Rightarrow> row" where
  "example_row d s cs = (Stamp (Timestamp d s), zip ohlcv_cols cs)"

definition example_raw :: frame where
  "example_raw =
     \<lparr>index_name = None, index_is_datetime = True, columns = ohlcv_cols,
      rows =
        [example_row 738886 0 [Num 100, Num 105, Num 99, Str ''bad'', Num 1000],
         example_row 738887 0 [Num 101, Num 106, Num 100, Str ''104'', Num 1200],
         example_row 738887 3600 [Num 101, Num 99, Num 100, Num 104, Num 0]]\<rparr>"

text \<open>
  The table that \<^verbatim>\<open>fetch_yfinance_data\<close> returns for that day: its index holds
  \<^verbatim>\<open>datetime.date\<close> objects and is named \<^verbatim>\<open>date\<close> (src/fetchers.py, lines 44 and 45).
\<close>

definition example_fetched :: frame where
  "example_fetched =
     \<lparr>index_name = Some ''date'', index_is_datetime = False, columns = ohlcv_cols,
      rows = [(Date 738887, zip ohlcv_cols [Num 101, Num 106, Num 100, Num 104, Num 1200])]\<rparr>"

text \<open>
  Two more tables that the function has to accept. The first has a column \<^verbatim>\<open>date\<close> and the
  default index: a row of 2024-01-01 whose close cannot be parsed, and a complete row of
  2024-01-02. The second is indexed as \<^verbatim>\<open>fetch_yfinance_data\<close> does it: a plain row of
  2024-01-01, and a row of 2024-01-02 with high below low and with no volume.
\<close>

definition example_dated :: frame where
  "example_dated =
     \<lparr>index_name = None, index_is_datetime = False, columns = ''date'' # ohlcv_cols,
      rows =
        [(Num 0, zip (''date'' # ohlcv_cols)
            [Date 738886, Num 100, Num 105, Num 99, Str ''bad'', Num 1000]),
         (Num 1, zip (''date'' # ohlcv_cols)
            [Date 738887, Num 101, Num 106, Num 100, Num 104, Num 1200])]\<rparr>"


section \<open>The storage engine (src/database.py)\<close>

text \<open>
  A row of table \<^verbatim>\<open>ohlcv_data\<close>: its key, the ticker and the date, and the five nullable
  decimals open, high, low, close and volume. The table is a list of rows; the primary
  key constraint says that the keys are distinct. The database is reachable or not
  (\<^verbatim>\<open>engine.connect()\<close> fails then). The module's \<^verbatim>\<open>engine\<close> is \<open>None\<close> when
  \<^verbatim>\<open>create_engine\<close> failed.
\<close>

type_synonym decimals =
  "rat option \<times> rat option \<times> rat option \<times> rat option \<times> rat option"

type_synonym stored = "(string \<times> date) \<times> decimals"

record pg =
  connects :: bool
  ohlcv_data :: "stored list"

datatype db_error = ConnectionFailed | CardinalityViolation | DataError

datatype db_msg =
    NotInitialized
  | NoDataProvided
  | MissingRequiredColumns "string list"
  | NothingToInsert
  | Inserted nat
  | DatabaseError db_error

text \<open>
  The names bound in the module when a function of it runs: what lines 3 to 8 import,
  and what the module defines. A name that is not among them, and is neither a local
  variable nor a builtin, raises \<^verbatim>\<open>NameError\<close> when it is evaluated. The module does not
  import numpy: \<^verbatim>\<open>np\<close> is not bound.
\<close>

definition database_globals :: "string list" where
  "database_globals =
     [''create_engine'', ''MetaData'', ''Table'', ''Column'', ''String'', ''Date'', ''Numeric'',
      ''PrimaryKeyConstraint'', ''Index'', ''pg_insert'', ''SQLAlchemyError'', ''pd'',
      ''DATABASE_URI'', ''engine'', ''metadata'', ''ohlcv_table'', ''create_db_tables'',
      ''insert_ohlcv_data'', ''fetch_ohlcv_data'']"

definition lookup_name :: "string \<Rightarrow> py_error + unit" where
  "lookup_name n = (if n \<in> set database_globals then Inr () else Inl (NameError n))"

subsection \<open>Writing\<close>

text \<open>
  A value sent to a column \<^verbatim>\<open>Numeric(p, s)\<close> is rounded to \<open>s\<close> decimal places, half away
  from zero; it overflows when it then needs more than \<open>p - s\<close> digits before the point.
\<close>

definition round_half_away :: "rat \<Rightarrow> int" where
  "round_half_away x = (if 0 \<le> x then \<lfloor>x + 1 / 2\<rfloor> else - \<lfloor>- x + 1 / 2\<rfloor>)"

definition pg_numeric :: "nat \<Rightarrow> nat \<Rightarrow> rat \<Rightarrow> db_error + rat" where
  "pg_numeric p s x =
     (let n = round_half_away (x * 10 ^ s)
      in if \<bar>n\<bar> < 10 ^ p then Inr (of_int n / 10 ^ s) else Inl DataError)"

fun numeric_param :: "nat \<Rightarrow> nat \<Rightarrow> cell \<Rightarrow> db_error + rat option" where
  "numeric_param p s (Num x) =
     (case pg_numeric p s x of Inl e \<Rightarrow> Inl e | Inr y \<Rightarrow> Inr (Some y))"
| "numeric_param p s NA = Inr None"
| "numeric_param p s c = Inl DataError"

text \<open>
  One dictionary of \<^verbatim>\<open>data_to_insert\<close> as a row of the table: the ticker is a string of
  at most 15 characters, the date is a date, the numbers fit their columns.
\<close>

definition to_record :: "row \<Rightarrow> db_error + stored" where
  "to_record r =
     (case (cell_at r ''ticker'', cell_at r ''date'') of
        (Str t, Date d) \<Rightarrow>
          if length t > 15 then Inl DataError
          else
            (case (numeric_param 19 8 (cell_at r ''open''), numeric_param 19 8 (cell_at r ''high''),
                   numeric_param 19 8 (cell_at r ''low''), numeric_param 19 8 (cell_at r ''close''),
                   numeric_param 25 4 (cell_at r ''volume'')) of
               (Inr op, Inr hi, Inr lo, Inr cl, Inr vo) \<Rightarrow> Inr ((t, d), (op, hi, lo, cl, vo))
             | _ \<Rightarrow> Inl DataError)
      | _ \<Rightarrow> Inl DataError)"

fun to_records :: "row list \<Rightarrow> db_error + stored list" where
  "to_records [] = Inr []"
| "to_records (r # rs) =
     (case to_record r of
        Inl e \<Rightarrow> Inl e
      | Inr x \<Rightarrow> (case to_records rs of Inl e \<Rightarrow> Inl e | Inr xs \<Rightarrow> Inr (x # xs)))"

text \<open>
  Lines 88 to 94, \<^verbatim>\<open>INSERT ... ON CONFLICT (ticker, date) DO UPDATE\<close>: each row is
  inserted, or overwrites the five values of the row with its key. PostgreSQL refuses
  a statement that proposes one key twice.
\<close>

definition pg_upsert :: "stored list \<Rightarrow> stored list \<Rightarrow> db_error + stored list" where
  "pg_upsert table vs =
     (if \<not> distinct (map fst vs) then Inl CardinalityViolation
      else Inr (foldl (\<lambda>t (k, v). AList.update k v t) table vs))"

text \<open>Lines 96 to 99: one transaction; a failure leaves the table as it was.\<close>

definition execute_upsert :: "pg \<Rightarrow> row list \<Rightarrow> db_error + pg" where
  "execute_upsert db data =
     (if \<not> connects db then Inl ConnectionFailed
      else
        (case to_records data of
           Inl e \<Rightarrow> Inl e
         | Inr vs \<Rightarrow>
             (case pg_upsert (ohlcv_data db) vs of
                Inl e \<Rightarrow> Inl e
              | Inr table \<Rightarrow> Inr (db\<lparr>ohlcv_data := table\<rparr>))))"

text \<open>
  The function: what it returns or raises, the database after it, and what it printed.
  Lines 78 to 81 are before the \<^verbatim>\<open>try\<close>. On line 81 the columns are selected, and then
  the argument of \<^verbatim>\<open>replace\<close> is evaluated: \<^verbatim>\<open>{pd.NA: None, np.nan: None}\<close>.
\<close>

definition insert_ohlcv_data ::
  "pandas \<Rightarrow> pg option \<Rightarrow> frame option \<Rightarrow> (py_error + unit) \<times> pg option \<times> db_msg list" where
  "insert_ohlcv_data pd engine df =
     (case engine of
        None \<Rightarrow> (Inr (), engine, [NotInitialized])
      | Some db \<Rightarrow>
          (case df of
             None \<Rightarrow> (Inr (), engine, [NoDataProvided])
           | Some f \<Rightarrow>
               if df_empty f then (Inr (), engine, [NoDataProvided])
               else if \<not> set final_cols \<subseteq> set (columns f)
               then (Inr (), engine,
                     [MissingRequiredColumns (filter (\<lambda>n. n \<notin> set (columns f)) final_cols)])
               else
                 (case to_datetime_all pd (col f ''date'') of
                    Inl e \<Rightarrow> (Inl e, engine, [])
                  | Inr ds \<Rightarrow>
                      (case select final_cols (set_col ''date'' (map dt_date ds) f) of
                         Inl e \<Rightarrow> (Inl e, engine, [])
                       | Inr selected \<Rightarrow>
                           (case lookup_name ''np'' of
                              Inl e \<Rightarrow> (Inl e, engine, [])
                            | Inr u \<Rightarrow>
                                let data_to_insert = rows selected
                                in if data_to_insert = []
                                   then (Inr (), engine, [NothingToInsert])
                                   else
                                     (case execute_upsert db data_to_insert of
                                        Inl e \<Rightarrow> (Inr (), engine, [DatabaseError e])
                                      | Inr db' \<Rightarrow>
                                          (Inr (), Some db',
                                           [Inserted (length data_to_insert)])))))))"

subsection \<open>Reading\<close>

text \<open>
  \<^verbatim>\<open>pd.read_sql\<close> and \<^verbatim>\<open>pd.to_numeric\<close> turn a decimal into a float64: the binary
  floating-point number with a 53-bit significand that is nearest to it, ties to even.
  The decimals of the table are below \<open>10 ^ 21\<close> and, unless zero, at least \<open>10 ^ -8\<close> in
  magnitude: neither overflow nor subnormal numbers occur.
\<close>

definition pow2 :: "int \<Rightarrow> rat" where
  "pow2 e = (if 0 \<le> e then 2 ^ nat e else 1 / 2 ^ nat (- e))"

definition round_half_even :: "rat \<Rightarrow> int" where
  "round_half_even x =
     (let f = \<lfloor>x\<rfloor>; d = x - of_int f
      in if d < 1 / 2 then f else if 1 / 2 < d then f + 1 else if even f then f else f + 1)"

text \<open>\<open>\<lfloor>log\<^sub>2 x\<rfloor>\<close> for a positive \<open>x\<close>, from the bit lengths of numerator and denominator.\<close>

definition ilog2 :: "rat \<Rightarrow> int" where
  "ilog2 x =
     (case quotient_of x of
        (p, q) \<Rightarrow> let d = bitlen p - bitlen q in if pow2 d \<le> x then d else d - 1)"

definition float64 :: "rat \<Rightarrow> rat" where
  "float64 x =
     (if x = 0 then 0
      else let e = ilog2 \<bar>x\<bar> - 52 in of_int (round_half_even (x / pow2 e)) * pow2 e)"

fun float_cell :: "rat option \<Rightarrow> cell" where
  "float_cell None = NA"
| "float_cell (Some x) = Num (float64 x)"

text \<open>One row of the result of the query, as \<^verbatim>\<open>pd.read_sql\<close> delivers it.\<close>

fun read_row :: "stored \<Rightarrow> row" where
  "read_row ((t, d), (op, hi, lo, cl, vo)) =
     (Stamp (Timestamp d 0),
      [(''ticker'', Str t), (''open'', float_cell op), (''high'', float_cell hi),
       (''low'', float_cell lo), (''close'', float_cell cl), (''volume'', float_cell vo)])"

definition read_sql :: "stored list \<Rightarrow> frame" where
  "read_sql result =
     \<lparr>index_name = Some ''date'', index_is_datetime = True,
      columns = ''ticker'' # ohlcv_cols, rows = map read_row result\<rparr>"

text \<open>
  A bound of the query is a date or a string, or is left out. Lines 126 to 129: a bound
  that is \<^verbatim>\<open>None\<close> or the empty string adds no condition; any other is converted with
  \<^verbatim>\<open>pd.to_datetime(...).date()\<close>, outside the \<^verbatim>\<open>try\<close>.
\<close>

datatype date_arg = DateArg date | StrArg string

fun date_bound :: "pandas \<Rightarrow> date_arg option \<Rightarrow> py_error + cell option" where
  "date_bound pd None = Inr None"
| "date_bound pd (Some (DateArg d)) = Inr (Some (Date d))"
| "date_bound pd (Some (StrArg s)) =
     (if s = [] then Inr None
      else (case to_datetime pd (Str s) of
              Inl e \<Rightarrow> Inl e
            | Inr c \<Rightarrow> Inr (Some (dt_date c))))"

fun not_before :: "cell option \<Rightarrow> date \<Rightarrow> bool" where
  "not_before None d = True"
| "not_before (Some (Date a)) d = (a \<le> d)"
| "not_before (Some c) d = False"

fun not_after :: "cell option \<Rightarrow> date \<Rightarrow> bool" where
  "not_after None d = True"
| "not_after (Some (Date b)) d = (d \<le> b)"
| "not_after (Some c) d = False"

text \<open>The \<^verbatim>\<open>SELECT ... WHERE ... ORDER BY date\<close> of lines 124 to 131.\<close>

definition select_ohlcv :: "string \<Rightarrow> cell option \<Rightarrow> cell option \<Rightarrow> stored list \<Rightarrow> stored list" where
  "select_ohlcv ticker lo hi table =
     sort_key (\<lambda>x. snd (fst x))
       (filter (\<lambda>x. fst (fst x) = ticker \<and> not_before lo (snd (fst x)) \<and> not_after hi (snd (fst x)))
          table)"

text \<open>
  The function. A statement with the bound \<open>NaT\<close> cannot be executed; that, like a
  database that cannot be reached, is an exception inside the \<^verbatim>\<open>try\<close>, and the result
  is \<^verbatim>\<open>pd.DataFrame()\<close>. Lines 137 to 139 convert each of the five columns with
  \<^verbatim>\<open>pd.to_numeric\<close>. The prints are left out here.
\<close>

definition fetch_ohlcv_data ::
  "pandas \<Rightarrow> pg option \<Rightarrow> string \<Rightarrow> date_arg option \<Rightarrow> date_arg option \<Rightarrow> py_error + frame" where
  "fetch_ohlcv_data pd engine ticker start_date end_date =
     (case engine of
        None \<Rightarrow> Inr empty_frame
      | Some db \<Rightarrow>
          (case date_bound pd start_date of
             Inl e \<Rightarrow> Inl e
           | Inr lo \<Rightarrow>
               (case date_bound pd end_date of
                  Inl e \<Rightarrow> Inl e
                | Inr hi \<Rightarrow>
                    if \<not> connects db \<or> lo = Some NaT \<or> hi = Some NaT then Inr empty_frame
                    else
                      Inr (foldl
                             (\<lambda>df n. if n \<in> set (columns df)
                                then set_col n (map (to_numeric pd) (col df n)) df else df)
                             (read_sql (select_ohlcv ticker lo hi (ohlcv_data db)))
                             ohlcv_cols))))"

text \<open>The date of a row of the result, from its index label.\<close>

fun row_date :: "row \<Rightarrow> date" where
  "row_date (Stamp t, cs) = ts_date t"
| "row_date (c, cs) = 0"

text \<open>
  The range that the caller asks for, as the specification has it, to compare the
  function with. The date that a bound stands for: a \<^verbatim>\<open>datetime.date\<close> is that date, and a
  string that is not empty is the calendar date of the timestamp that the library reads in
  it; there is none where the library reads no timestamp. A date is in the range when it
  is not before the lower date and not after the upper one, where a bound that is left
  out excludes nothing.
\<close>

fun spec_date_of :: "pandas \<Rightarrow> date_arg \<Rightarrow> date option" where
  "spec_date_of pd (DateArg d) = Some d"
| "spec_date_of pd (StrArg s) =
     (if s = [] then None
      else (case datetime_of_obj pd (Str s) of
              Inr (Some t) \<Rightarrow> Some (ts_date t)
            | _ \<Rightarrow> None))"

definition spec_in_range :: "date option \<Rightarrow> date option \<Rightarrow> date \<Rightarrow> bool" where
  "spec_in_range lo hi d \<longleftrightarrow>
     (case lo of None \<Rightarrow> True | Some a \<Rightarrow> a \<le> d) \<and>
     (case hi of None \<Rightarrow> True | Some b \<Rightarrow> d \<le> b)"

text \<open>A database for the examples, and a canonical table of one row to write to it.\<close>

definition example_db :: pg where
  "example_db =
     \<lparr>connects = True,
      ohlcv_data =
        [((''TST'', 738888), (Some 102, Some 107, Some 101, Some (1 / 10), Some 900)),
         ((''ABC'', 738887), (Some 5, Some 6, Some 4, Some 5, None)),
         ((''TST'', 738887), (Some 101, Some 106, Some 100, Some 104, Some 1200)),
         ((''TST'', 738886), (Some 100, Some 105, Some 99, Some (207 / 2), Some 1000))]\<rparr>"

definition example_canonical_table :: frame where
  "example_canonical_table =
     \<lparr>index_name = None, index_is_datetime = False, columns = final_cols,
      rows = [(Num 0, zip final_cols
                 [Str ''TST'', Date 738887, Num 101, Num 106, Num 100, Num 110, Num 1200])]\<rparr>"

text \<open>
  An instance of the library that also reads the three days of the examples, written as
  strings.
\<close>

definition example_pd_dates :: pandas where
  "example_pd_dates =
     \<lparr>numeric_of_obj = numeric_of_obj example_pd,
      datetime_of_obj =
        (\<lambda>c. case c of
           Str s \<Rightarrow>
             (case map_of [(''2024-01-01'', 738886), (''2024-01-02'', 738887),
                           (''2024-01-03'', 738888)] s of
                Some d \<Rightarrow> Inr (Some (Timestamp d 0))
              | None \<Rightarrow> Inl ValueError)
         | _ \<Rightarrow> Inl ValueError)\<rparr>"

text \<open>
  An instance of the library's rolling mean for the examples: the mean of the samples of
  the window, rounded once to float64.
\<close>

definition example_rolling :: rolling where
  "example_rolling w xs i =
     float64 (sum_list (map the (take w (drop (i + 1 - w) xs))) / of_nat w)"

section \<open>Properties of the indicators\<close>







lemma example_rolling_run:
  "calculate_sma example_rolling (Some [(0::nat, Some 1), (1, Some 2), (2, Some 6)]) (IntW 2) =
     [(0, None), (1, Some (3 / 2)), (2, Some 4)]"
  by code_simp

text \<open>
  The mean of two doubles need not be a double: the mean of the doubles nearest to \<open>0.1\<close>
  and \<open>0.2\<close> is not one, since rounding changes it.
\<close>

lemma mean_of_doubles_not_a_double:
  "float64 ((float64 (1 / 10) + float64 (1 / 5)) / 2) \<noteq>
     (float64 (1 / 10) + float64 (1 / 5)) / 2"
  by code_simp




section \<open>Properties of the cleaning pipeline\<close>

lemma cell_at_upd [simp]: "cell_at (upd c v r) n = (if n = c then v else cell_at r n)"
  by (simp add: cell_at_def upd_def update_conv')

lemma fst_upd [simp]: "fst (upd c v r) = fst r"
  by (simp add: upd_def)

lemma cell_at_Cons [simp]:
  "cell_at (l, (c, v) # al) n = (if n = c then v else cell_at (l, al) n)"
  by (simp add: cell_at_def)

lemma cell_at_snd [simp]: "cell_at (l, snd r) n = cell_at r n"
  by (simp add: cell_at_def)

lemma set_col_map:
  "set_col c (map g (rows df)) df =
     df\<lparr>columns := (if c \<in> set (columns df) then columns df else columns df @ [c]),
        rows := map (\<lambda>r. upd c (g r) r) (rows df)\<rparr>"
  by (simp add: set_col_def zip_map2 zip_same_conv_map upd_def comp_def case_prod_unfold)

lemma enumerate_map: "enumerate n (map f xs) = map (\<lambda>(i, x). (i, f x)) (enumerate n xs)"
  by (simp add: enumerate_eq_zip zip_map2)

lemma isna_to_numeric [simp]: "isna (to_numeric pd c) \<longleftrightarrow> to_numeric pd c = NA"
  by (cases c) (auto split: option.splits)

lemma to_numeric_idem [simp]: "to_numeric pd (to_numeric pd c) = to_numeric pd c"
  by (cases c) (auto split: option.splits)

lemma is_datetime_to_datetime: "to_datetime pd c = Inr t \<Longrightarrow> is_datetime t"
  by (cases c) (auto split: sum.splits option.splits)

lemma to_datetime_is_datetime: "is_datetime c \<Longrightarrow> to_datetime pd c = Inr c"
  by (cases c) auto

lemma is_datetime_dt_of [simp]: "is_datetime (dt_of pd c)"
  by (auto simp: dt_of_def is_datetime_to_datetime split: sum.splits)

lemma dt_of_idem [simp]: "dt_of pd (dt_of pd c) = dt_of pd c"
  using to_datetime_is_datetime [OF is_datetime_dt_of, of pd pd c] by (simp add: dt_of_def)

lemma to_datetime_all_Inr:
  "to_datetime_all pd cs = Inr ds \<Longrightarrow> ds = map (dt_of pd) cs"
  by (induction cs arbitrary: ds) (auto simp: dt_of_def split: sum.splits)

lemma to_datetime_all_is_datetime:
  "list_all is_datetime cs \<Longrightarrow> to_datetime_all pd cs = Inr cs"
  by (induction cs) (auto simp: to_datetime_is_datetime)

text \<open>The in-place loop over the columns, object by object.\<close>

lemma foldl_update_in_place:
  "c < length h \<Longrightarrow>
   foldl (\<lambda>h n. h[c := f n (h ! c)]) h ns = h[c := foldl (\<lambda>df n. f n df) (h ! c) ns]"
  by (induction ns arbitrary: h) auto

lemma coerce_frame:
  "set ns \<subseteq> set (columns df) \<Longrightarrow>
   foldl (\<lambda>df n. set_col n (map (to_numeric pd) (col df n)) df) df ns =
     df\<lparr>rows := map (coerce_row pd ns) (rows df)\<rparr>"
proof (induction ns arbitrary: df)
  case Nil
  then show ?case by (simp add: coerce_row_def)
next
  case (Cons n ns)
  have step: "set_col n (map (to_numeric pd) (col df n)) df =
      df\<lparr>rows := map (\<lambda>r. upd n (to_numeric pd (cell_at r n)) r) (rows df)\<rparr>"
    using Cons.prems set_col_map [of n "\<lambda>r. to_numeric pd (cell_at r n)" df]
    by (simp add: col_def comp_def)
  show ?case
    using Cons.prems by (simp add: step Cons.IH coerce_row_def comp_def)
qed

lemma fst_coerce_row [simp]: "fst (coerce_row pd ns r) = fst r"
  unfolding coerce_row_def by (induction ns arbitrary: r) auto

lemma cell_at_coerce_row:
  "cell_at (coerce_row pd ns r) n =
     (if n \<in> set ns then to_numeric pd (cell_at r n) else cell_at r n)"
  unfolding coerce_row_def by (induction ns arbitrary: r) auto

lemma and_then_Continue [simp]:
  "and_then (Continue c, h, ms) k = (case k c h of (f, h', ms') \<Rightarrow> (f, h', ms @ ms'))"
  by (simp add: and_then_def)

lemma and_then_Return [simp]: "and_then (Return r, h, ms) k = (Return r, h, ms)"
  by (simp add: and_then_def)

lemma and_then_Raise [simp]: "and_then (Raise e, h, ms) k = (Raise e, h, ms)"
  by (simp add: and_then_def)

lemma coerce_numeric_eq:
  assumes "c < length h" and "set ohlcv_cols \<subseteq> set (columns (h ! c))"
  shows "coerce_numeric pd c h =
     (Continue c, h[c := (h ! c)\<lparr>rows := map (coerce_row pd ohlcv_cols) (rows (h ! c))\<rparr>], [])"
  using assms
  by (simp add: coerce_numeric_def foldl_update_in_place [where f = "\<lambda>n df. set_col n (map (to_numeric pd) (col df n)) df"] coerce_frame)

lemma complete_coerce_row:
  "list_all (\<lambda>n. \<not> isna (cell_at (coerce_row pd ohlcv_cols r) n)) ohlcv_cols \<longleftrightarrow> complete pd r"
  by (simp add: complete_def cell_at_coerce_row list_all_iff)

lemma rows_dropna_coerced:
  "rows (dropna ohlcv_cols (df\<lparr>rows := map (coerce_row pd ohlcv_cols) (rows df)\<rparr>)) =
     map (coerce_row pd ohlcv_cols) (filter (complete pd) (rows df))"
  by (simp add: dropna_def filter_map comp_def complete_coerce_row)

lemma anomaly_report_cong:
  assumes "\<And>x n. x \<in> set xs \<Longrightarrow> n \<in> set ohlcv_cols \<Longrightarrow> cell_at (f x) n = cell_at (g x) n"
  shows "anomaly_report (map f xs) = anomaly_report (map g xs)"
proof -
  have eq: "cell_at (f x) n = cell_at (g x) n"
    if "x \<in> set xs" "n \<in> {''open'', ''high'', ''low'', ''close'', ''volume''}" for x n
    using assms [of x n] that by (simp add: ohlcv_cols_def)
  have hl: "filter (high_below_low \<circ> f) xs = filter (high_below_low \<circ> g) xs"
    by (rule filter_cong) (simp_all add: high_below_low_def eq)
  have oc: "filter (outside_high_low n \<circ> f) xs = filter (outside_high_low n \<circ> g) xs"
    if "n \<in> {''open'', ''close''}" for n
    using that by (intro filter_cong) (auto simp: outside_high_low_def eq)
  have zv: "filter (zero_volume \<circ> f) xs = filter (zero_volume \<circ> g) xs"
    by (rule filter_cong) (simp_all add: zero_volume_def eq)
  have ng: "list_ex negative_value (map f xs) = list_ex negative_value (map g xs)"
    by (auto simp: list_ex_iff negative_value_def ohlcv_cols_def eq)
  show ?thesis
    unfolding anomaly_report_def Let_def filter_map length_map map_is_Nil_conv ng
    by (simp add: hl oc zv)
qed

lemma complete_cong:
  "(\<And>n. n \<in> set ohlcv_cols \<Longrightarrow> cell_at r n = cell_at r' n) \<Longrightarrow> complete pd r = complete pd r'"
  by (simp add: complete_def list_all_iff)

lemma after_index_Some:
  assumes res: "after_index pd t (Continue c, H, ms) = (Return (Some r), h', ms')"
    and c: "c < length H" and dt: "index_is_datetime (H ! c)"
    and cols: "set ohlcv_cols \<subseteq> set (columns (H ! c))"
    and date: "''date'' \<in> set (columns (H ! c))"
  defines "K \<equiv> filter (complete pd) (rows (H ! c))"
  shows "r = length H \<and> length h' = Suc (length H) \<and> K \<noteq> [] \<and>
    index_column (H ! c) \<notin> set (columns (H ! c)) \<and>
    h' ! r = \<lparr>index_name = None, index_is_datetime = False, columns = final_cols,
       rows = map (\<lambda>(i, x). (Num (of_nat i),
                [(''ticker'', Str t),
                 (''date'', dt_date (dt_of pd (cell_at x ''date''))),
                 (''open'', to_numeric pd (cell_at x ''open'')),
                 (''high'', to_numeric pd (cell_at x ''high'')),
                 (''low'', to_numeric pd (cell_at x ''low'')),
                 (''close'', to_numeric pd (cell_at x ''close'')),
                 (''volume'', to_numeric pd (cell_at x ''volume''))]))
              (enumerate 0 K)\<rparr> \<and>
    ms' = ms @ (if length K < length (rows (H ! c))
                then [DroppedRows (length (rows (H ! c)) - length K)] else []) @
          anomaly_report (rows (h' ! r))"
proof -
  define G where "G = H ! c"
  define G2 where "G2 = G\<lparr>rows := map (coerce_row pd ohlcv_cols) (rows G)\<rparr>"
  define G3 where "G3 = dropna ohlcv_cols G2"
  define dmsg where "dmsg = (if length K < length (rows G)
      then [DroppedRows (length (rows G) - length K)] else [])"
  have rows3: "rows G3 = map (coerce_row pd ohlcv_cols) K"
    by (simp add: G3_def G2_def rows_dropna_coerced K_def G_def)
  have G3_fields: "columns G3 = columns G" "index_name G3 = index_name G"
      "index_is_datetime G3 = index_is_datetime G"
    by (simp_all add: G3_def G2_def dropna_def)
  have s2: "and_then (Continue c, H, ms) (coerce_numeric pd) = (Continue c, H[c := G2], ms)"
    using c cols by (simp add: coerce_numeric_eq G2_def G_def)
  have lenK: "length K \<le> length (rows G)"
    by (simp add: K_def G_def)
  have s3: "and_then (Continue c, H[c := G2], ms) drop_incomplete =
      (if df_empty G3 then (Return None, H[c := G3], ms @ dmsg @ [BecameEmpty])
       else (Continue c, H[c := G3], ms @ dmsg))"
  proof -
    have d: "dropna ohlcv_cols G2 = G3" by (simp add: G3_def)
    have l2: "length (rows G2) = length (rows G)" by (simp add: G2_def)
    show ?thesis
      using c lenK by (auto simp: drop_incomplete_def Let_def d l2 rows3 dmsg_def)
  qed
  have ne: "\<not> df_empty G3"
    using res unfolding after_index_def s2 s3 by (auto split: if_splits)
  then have K: "K \<noteq> []" by (simp add: df_empty_def rows3)
  have s4: "validate c (H[c := G3]) = (Continue c, H[c := G3], anomaly_report (rows G3))"
    using c by (simp add: validate_def)
  have fin: "(case finish pd t c (H[c := G3]) of
       (f, h2, ms2) \<Rightarrow> (f, h2, (ms @ dmsg @ anomaly_report (rows G3)) @ ms2)) =
      (Return (Some r), h', ms')"
    using res ne unfolding after_index_def s2 s3 by (simp add: s4)
  define name where "name = index_column G"
  have name3: "index_column G3 = name"
    by (simp add: index_column_def name_def G3_fields)
  have name: "name \<notin> set (columns G)"
  proof
    assume "name \<in> set (columns G)"
    then have "reset_index G3 = Inl ValueError"
      by (simp add: reset_index_def name3 G3_fields)
    then show False
      using fin c dt by (simp add: finish_def G3_fields G_def [symmetric])
  qed
  define G4 where "G4 = \<lparr>index_name = None, index_is_datetime = False,
      columns = name # columns G,
      rows = map (\<lambda>(i, r). (Num (of_nat i), (name, fst r) # snd r)) (enumerate 0 (rows G3))\<rparr>"
  have reset: "reset_index G3 = Inr G4"
    using name by (simp add: reset_index_def name3 G3_fields G4_def)
  have name_neq: "name \<noteq> ''date''" "name \<noteq> ''open''" "name \<noteq> ''high''" "name \<noteq> ''low''"
      "name \<noteq> ''close''" "name \<noteq> ''volume''"
    using name date cols by (auto simp: G_def ohlcv_cols_def)
  have date4: "''date'' \<in> set (columns G4)"
    using date by (simp add: G4_def G_def)
  obtain ds where ds: "to_datetime_all pd (col G4 ''date'') = Inr ds"
    using fin c dt date4
    by (cases "to_datetime_all pd (col G4 ''date'')")
       (auto simp: finish_def G3_fields G_def [symmetric] reset)
  have ds_eq: "ds = map (\<lambda>r. dt_of pd (cell_at r ''date'')) (rows G4)"
    using to_datetime_all_Inr [OF ds] by (simp add: col_def comp_def)
  define G5 where "G5 = set_col ''date'' (map dt_date ds) G4"
  define G6 where "G6 = set_col ''ticker'' (replicate (length (rows G5)) (Str t)) G5"
  have G5: "G5 = G4\<lparr>rows := map (\<lambda>r. upd ''date'' (dt_date (dt_of pd (cell_at r ''date''))) r) (rows G4)\<rparr>"
    using set_col_map [of "''date''" "\<lambda>r. dt_date (dt_of pd (cell_at r ''date''))" G4] date4
    by (simp add: G5_def ds_eq comp_def)
  have G6: "G6 = G5\<lparr>columns := (if ''ticker'' \<in> set (columns G5) then columns G5
                                   else columns G5 @ [''ticker'']),
       rows := map (\<lambda>r. upd ''ticker'' (Str t) r) (rows G5)\<rparr>"
    using set_col_map [of "''ticker''" "\<lambda>r. Str t" G5]
    by (simp add: G6_def map_replicate_const)
  define out where "out = G6\<lparr>columns := final_cols,
      rows := map (\<lambda>r. (fst r, map (\<lambda>c. (c, cell_at r c)) final_cols)) (rows G6)\<rparr>"
  have sel: "select final_cols G6 = Inr out"
    using cols date by (auto simp: select_def out_def G6 G5 G4_def final_cols_def ohlcv_cols_def G_def)
  have fin2: "finish pd t c (H[c := G3]) = (Return (Some (length H)), H[c := G6] @ [out], [])"
    using c dt date4
    by (simp add: finish_def G3_fields G_def [symmetric] reset ds Let_def new_def
        G5_def [symmetric] G6_def [symmetric] sel)
  have out_rows: "rows out = map (\<lambda>(i, x). (Num (of_nat i),
                [(''ticker'', Str t),
                 (''date'', dt_date (dt_of pd (cell_at x ''date''))),
                 (''open'', to_numeric pd (cell_at x ''open'')),
                 (''high'', to_numeric pd (cell_at x ''high'')),
                 (''low'', to_numeric pd (cell_at x ''low'')),
                 (''close'', to_numeric pd (cell_at x ''close'')),
                 (''volume'', to_numeric pd (cell_at x ''volume''))]))
              (enumerate 0 K)"
    using name_neq
    by (simp add: out_def G6 G5 G4_def rows3 enumerate_map comp_def case_prod_unfold
        final_cols_def cell_at_coerce_row ohlcv_cols_def)
  have out_fields: "index_name out = None" "index_is_datetime out = False"
      "columns out = final_cols"
    by (simp_all add: out_def G6 G5 G4_def)
  have out_eq: "out = \<lparr>index_name = None, index_is_datetime = False, columns = final_cols,
       rows = rows out\<rparr>"
    using out_fields by (cases out) simp
  have r: "r = length H" and h': "h' = H[c := G6] @ [out]"
    and ms': "ms' = ms @ dmsg @ anomaly_report (rows G3)"
    using fin unfolding fin2 by auto
  have at_r: "h' ! r = out" "length h' = Suc (length H)"
    by (simp_all add: r h' nth_append)
  have "anomaly_report (rows G3) = anomaly_report (rows out)"
  proof -
    have "rows G3 = map (coerce_row pd ohlcv_cols \<circ> snd) (enumerate 0 K)"
      unfolding rows3 map_map [symmetric] map_snd_enumerate ..
    then show ?thesis
      unfolding out_rows
      by (auto intro!: anomaly_report_cong simp: cell_at_coerce_row ohlcv_cols_def)
  qed
  then show ?thesis
    using K name r ms' out_eq at_r unfolding out_rows
    by (simp add: G_def [symmetric] dmsg_def name_def [symmetric])
qed

lemma after_index_Some_mapped:
  assumes res: "after_index pd t (Continue c, H, ms) = (Return (Some r), h', ms')"
    and c: "c < length H" and dt: "index_is_datetime (H ! c)"
    and cols: "set ohlcv_cols \<subseteq> set (columns (H ! c))"
    and date: "''date'' \<in> set (columns (H ! c))"
    and rows: "rows (H ! c) = map g rs"
    and same: "\<And>x n. n \<in> set ohlcv_cols \<Longrightarrow> cell_at (g x) n = cell_at x n"
    and key: "\<And>x. dt_of pd (cell_at (g x) ''date'') = dt_of pd (fst x)"
  shows "r = length H \<and> length h' = Suc (length H) \<and> filter (complete pd) rs \<noteq> [] \<and>
    index_column (H ! c) \<notin> set (columns (H ! c)) \<and>
    h' ! r = \<lparr>index_name = None, index_is_datetime = False, columns = final_cols,
       rows = map (\<lambda>(i, x). (Num (of_nat i), canonical pd t x))
                (enumerate 0 (filter (complete pd) rs))\<rparr> \<and>
    (\<exists>pre. ms' = ms @ pre @ anomaly_report (rows (h' ! r)))"
proof -
  have "complete pd (g x) = complete pd x" for x
    by (rule complete_cong) (rule same)
  then have K: "filter (complete pd) (rows (H ! c)) = map g (filter (complete pd) rs)"
    by (simp add: rows filter_map comp_def)
  have cells: "[(''ticker'', Str t),
                 (''date'', dt_date (dt_of pd (cell_at (g x) ''date''))),
                 (''open'', to_numeric pd (cell_at (g x) ''open'')),
                 (''high'', to_numeric pd (cell_at (g x) ''high'')),
                 (''low'', to_numeric pd (cell_at (g x) ''low'')),
                 (''close'', to_numeric pd (cell_at (g x) ''close'')),
                 (''volume'', to_numeric pd (cell_at (g x) ''volume''))] = canonical pd t x" for x
    using same [of _ x] by (simp add: canonical_def date_key_def key ohlcv_cols_def)
  show ?thesis
    using after_index_Some [OF res c dt cols date]
    unfolding K enumerate_map
    by (auto simp: comp_def case_prod_unfold cells)
qed

lemma after_index_Return [simp]: "after_index pd t (Return r, h, ms) = (Return r, h, ms)"
  by (simp add: after_index_def)

lemma after_index_Raise [simp]: "after_index pd t (Raise e, h, ms) = (Raise e, h, ms)"
  by (simp add: after_index_def)

lemma clean_ohlcv_data_after_index:
  "clean_ohlcv_data pd h df t =
     (case after_index pd t (and_then (check_input h df) (ensure_index pd)) of
        (f, h', ms) \<Rightarrow> (result_of f, h', ms))"
  by (simp add: clean_ohlcv_data_def after_index_def)

lemma result_of_Some: "result_of f = Inr (Some r) \<longleftrightarrow> f = Return (Some r)"
  by (cases f) auto

lemma clean_Some:
  assumes res: "clean_ohlcv_data pd h df t = (Inr (Some r), h', ms)"
  defines "rs \<equiv> (case df of Some a \<Rightarrow> rows (h ! a) | None \<Rightarrow> [])"
  shows "df \<noteq> None \<and> filter (complete pd) rs \<noteq> [] \<and>
     (case df of
        Some a \<Rightarrow> index_name (h ! a) \<noteq> Some ''date'' \<and>
          (index_is_datetime (h ! a) \<or> ''date'' \<notin> set (columns (h ! a)))
      | None \<Rightarrow> False) \<and>
     r = Suc (length h) \<and> length h' = Suc (Suc (length h)) \<and>
     h' ! r = \<lparr>index_name = None, index_is_datetime = False, columns = final_cols,
        rows = map (\<lambda>(i, x). (Num (of_nat i), canonical pd t x))
                 (enumerate 0 (filter (complete pd) rs))\<rparr> \<and>
     (\<exists>pre. ms = pre @ anomaly_report (rows (h' ! r)))"
proof -
  have ai: "after_index pd t (and_then (check_input h df) (ensure_index pd)) =
      (Return (Some r), h', ms)"
    using res unfolding clean_ohlcv_data_after_index
    by (auto simp: result_of_Some split: prod.splits)
  obtain a where df: "df = Some a"
    using ai by (cases df) (auto simp: check_input_def)
  define F where "F = h ! a"
  define c where "c = length h"
  have rs: "rs = rows F" by (simp add: rs_def df F_def)
  have nonempty: "\<not> df_empty F" and cols: "set ohlcv_cols \<subseteq> set (columns F)"
    using ai
    by (auto simp: df check_input_def F_def new_def Let_def split: if_splits)
  have ci: "check_input h df = (Continue c, h @ [F], [Cleaning (length (rows F))])"
    using nonempty cols by (simp add: check_input_def df F_def [symmetric] new_def c_def)
  have at_c: "(h @ [X]) ! c = X" "c < length (h @ [X])" "(h @ [X])[c := Y] = h @ [Y]" for X Y
    by (simp_all add: c_def)
  let ?ms0 = "[Cleaning (length (rows F))]"
  have goal: ?thesis
    if ai': "after_index pd t (Continue c, h @ [G], ms0) = (Return (Some r), h', ms)"
      and dt: "index_is_datetime G" and colsG: "set ohlcv_cols \<subseteq> set (columns G)"
      and date: "''date'' \<in> set (columns G)" and rows: "rows G = map g (rows F)"
      and same: "\<And>x n. n \<in> set ohlcv_cols \<Longrightarrow> cell_at (g x) n = cell_at x n"
      and key: "\<And>x. dt_of pd (cell_at (g x) ''date'') = dt_of pd (fst x)"
      and iname: "index_name G = index_name F"
      and path: "index_is_datetime F \<or> ''date'' \<notin> set (columns F)"
    for G ms0 g
  proof -
    have G: "(h @ [G]) ! c = G" "c < length (h @ [G])" by (simp_all add: c_def)
    note T = after_index_Some_mapped [OF ai' G(2), unfolded G(1), OF dt colsG date rows same key]
    from T date have "index_name F \<noteq> Some ''date''"
      by (auto simp: index_column_def iname)
    with T path show ?thesis
      unfolding rs by (auto simp: df c_def F_def)
  qed
  consider (A) "index_is_datetime F"
    | (B) "\<not> index_is_datetime F" "''date'' \<in> set (columns F)"
    | (C) "\<not> index_is_datetime F" "''date'' \<notin> set (columns F)"
    by blast
  then show ?thesis
  proof cases
    case A
    define G where "G = set_col ''date'' (index_labels F) F"
    have G: "G = F\<lparr>columns := (if ''date'' \<in> set (columns F) then columns F
                                else columns F @ [''date'']),
                    rows := map (\<lambda>r. upd ''date'' (fst r) r) (rows F)\<rparr>"
      using set_col_map [of "''date''" fst F] by (simp add: G_def index_labels_def)
    have dtG: "index_is_datetime G" using A by (simp add: G)
    have ei: "ensure_index pd c (h @ [F]) = (Continue c, h @ [G], [])"
      using A dtG by (simp add: ensure_index_def at_c G_def [symmetric] index_checked_def)
    have "after_index pd t (Continue c, h @ [G], ?ms0) = (Return (Some r), h', ms)"
      using ai by (simp add: ci ei)
    from this dtG show ?thesis
      by (rule goal [where g = "\<lambda>r. upd ''date'' (fst r) r"]) (use cols A in \<open>auto simp: G ohlcv_cols_def\<close>)
  next
    case B
    show ?thesis
    proof (cases "to_datetime_all pd (col F ''date'')")
      case (Inl e)
      then show ?thesis
        using ai B by (simp add: ci ensure_index_def at_c index_checked_def)
    next
      case (Inr ds)
      define G where "G = set_index ''date'' (set_col ''date'' ds F)"
      have fields: "index_name G = Some ''date''" "''date'' \<in> set (columns G)"
        "set ohlcv_cols \<subseteq> set (columns G)"
        using B cols by (auto simp: G_def set_index_def set_col_def)
      have ei: "ensure_index pd c (h @ [F]) =
          index_checked (Continue (Suc c), h @ [set_col ''date'' ds F, G], [])"
        using B Inr by (simp add: ensure_index_def at_c new_def Let_def G_def c_def)
      have G2: "(h @ [set_col ''date'' ds F, G]) ! Suc c = G"
          "Suc c < length (h @ [set_col ''date'' ds F, G])"
        by (simp_all add: c_def nth_append)
      show ?thesis
      proof (cases "index_is_datetime G")
        case False
        then show ?thesis
          using ai by (simp add: ci ei index_checked_def G2)
      next
        case True
        then have "after_index pd t (Continue (Suc c), h @ [set_col ''date'' ds F, G], ?ms0) =
            (Return (Some r), h', ms)"
          using ai by (simp add: ci ei index_checked_def G2)
        from after_index_Some [OF this G2(2)] True fields
        show ?thesis by (simp add: G2 index_column_def)
      qed
    qed
  next
    case C
    show ?thesis
    proof (cases "to_datetime_all pd (index_labels F)")
      case (Inl e)
      then show ?thesis
        using ai C by (cases "e = TypeError \<or> e = ValueError")
          (simp_all add: ci ensure_index_def at_c index_checked_def)
    next
      case (Inr ls)
      have ls: "ls = map (\<lambda>r. dt_of pd (fst r)) (rows F)"
        using to_datetime_all_Inr [OF Inr] by (simp add: index_labels_def comp_def)
      define G1 where "G1 = assign_index ls F"
      have G1: "G1 = F\<lparr>index_is_datetime := True,
          rows := map (\<lambda>r. (dt_of pd (fst r), snd r)) (rows F)\<rparr>"
        by (simp add: G1_def assign_index_def ls zip_map1 zip_same_conv_map comp_def
            list_all_iff)
      define G where "G = set_col ''date'' (index_labels G1) G1"
      have G: "G = G1\<lparr>columns := columns F @ [''date''],
                    rows := map (\<lambda>r. upd ''date'' (fst r) r) (rows G1)\<rparr>"
        using set_col_map [of "''date''" fst G1] C by (simp add: G_def index_labels_def G1)
      have dtG: "index_is_datetime G" by (simp add: G G1)
      have ei: "ensure_index pd c (h @ [F]) = (Continue c, h @ [G], [UsedIndexAsDate])"
        using C Inr dtG
        by (simp add: ensure_index_def at_c Let_def G1_def [symmetric] G_def [symmetric]
            index_checked_def)
      have "after_index pd t (Continue c, h @ [G], ?ms0 @ [UsedIndexAsDate]) =
          (Return (Some r), h', ms)"
        using ai by (simp add: ci ei)
      from this dtG show ?thesis
        by (rule goal [where g = "\<lambda>r. upd ''date'' (dt_of pd (fst r)) (dt_of pd (fst r), snd r)"])
           (use cols C in \<open>auto simp: G G1 comp_def ohlcv_cols_def\<close>)
    qed
  qed
qed

lemma keeps_and_then:
  assumes "keeps h0 s"
    and "\<And>c h. length h0 \<le> c \<Longrightarrow> c < length h \<Longrightarrow> take (length h0) h = h0 \<Longrightarrow> keeps h0 (k c h)"
  shows "keeps h0 (and_then s k)"
proof (cases s)
  case (fields f h ms)
  show ?thesis
  proof (cases f)
    case (Continue c)
    with assms fields have "keeps h0 (k c h)" by (simp add: keeps_def)
    then show ?thesis using fields Continue by (auto simp: keeps_def split: prod.splits)
  qed (use assms fields in \<open>auto simp: keeps_def\<close>)
qed

lemma keeps_check_input: "keeps h (check_input h df)"
  by (auto simp: keeps_def check_input_def new_def Let_def split: option.splits)

lemma keeps_index_checked: "keeps h0 s \<Longrightarrow> keeps h0 (index_checked s)"
  by (auto simp: keeps_def index_checked_def split: flow.splits if_splits)

lemma keeps_ensure_index:
  assumes "length h0 \<le> c" "c < length h" "take (length h0) h = h0"
  shows "keeps h0 (ensure_index pd c h)"
  unfolding ensure_index_def
  by (rule keeps_index_checked)
     (use assms in \<open>auto simp: keeps_def new_def Let_def split: sum.splits\<close>)

lemma take_foldl_update:
  "n \<le> c \<Longrightarrow> take n (foldl (\<lambda>h x. h[c := f x h]) h xs) = take n h"
  by (induction xs arbitrary: h) auto

lemma length_foldl_update: "length (foldl (\<lambda>h x. h[c := f x h]) h xs) = length h"
  by (induction xs arbitrary: h) auto

lemma keeps_coerce_numeric:
  assumes "length h0 \<le> c" "c < length h" "take (length h0) h = h0"
  shows "keeps h0 (coerce_numeric pd c h)"
  using assms by (simp add: keeps_def coerce_numeric_def take_foldl_update length_foldl_update)

lemma keeps_drop_incomplete:
  assumes "length h0 \<le> c" "c < length h" "take (length h0) h = h0"
  shows "keeps h0 (drop_incomplete c h)"
  using assms by (simp add: keeps_def drop_incomplete_def Let_def)

lemma keeps_validate:
  assumes "length h0 \<le> c" "c < length h" "take (length h0) h = h0"
  shows "keeps h0 (validate c h)"
  using assms by (simp add: keeps_def validate_def)

lemma keeps_finish:
  assumes "length h0 \<le> c" "c < length h" "take (length h0) h = h0"
  shows "keeps h0 (finish pd t c h)"
  using assms
  by (auto simp: keeps_def finish_def Let_def new_def split: sum.splits)

lemma keeps_clean:
  "keeps h (and_then (and_then (and_then (and_then (and_then
             (check_input h df) (ensure_index pd)) (coerce_numeric pd))
             drop_incomplete) validate) (finish pd t))"
  by (intro keeps_and_then keeps_check_input keeps_ensure_index keeps_coerce_numeric
      keeps_drop_incomplete keeps_validate keeps_finish)

lemma clean_keeps_heap: "take (length h) (fst (snd (clean_ohlcv_data pd h df t))) = h"
  using keeps_clean [of h df pd t]
  by (auto simp: clean_ohlcv_data_def keeps_def split: prod.splits)

subsection \<open>A run of the function\<close>


lemma example_run:
  "clean_ohlcv_data example_pd [example_raw] (Some 0) ''TST'' =
     (Inr (Some 2),
      [example_raw,
       \<lparr>index_name = None, index_is_datetime = False,
        columns = [''index'', ''open'', ''high'', ''low'', ''close'', ''volume'', ''date'',
                   ''ticker''],
        rows =
          [(Num 0,
            [(''index'', Stamp (Timestamp 738887 0)), (''open'', Num 101),
             (''high'', Num 106), (''low'', Num 100), (''close'', Num 104),
             (''volume'', Num 1200), (''date'', Date 738887), (''ticker'', Str ''TST'')]),
           (Num 1,
            [(''index'', Stamp (Timestamp 738887 3600)), (''open'', Num 101),
             (''high'', Num 99), (''low'', Num 100), (''close'', Num 104),
             (''volume'', Num 0), (''date'', Date 738887), (''ticker'', Str ''TST'')])]\<rparr>,
       \<lparr>index_name = None, index_is_datetime = False, columns = final_cols,
        rows =
          [(Num 0,
            [(''ticker'', Str ''TST''), (''date'', Date 738887), (''open'', Num 101),
             (''high'', Num 106), (''low'', Num 100), (''close'', Num 104),
             (''volume'', Num 1200)]),
           (Num 1,
            [(''ticker'', Str ''TST''), (''date'', Date 738887), (''open'', Num 101),
             (''high'', Num 99), (''low'', Num 100), (''close'', Num 104),
             (''volume'', Num 0)])]\<rparr>],
      [Cleaning 3, DroppedRows 1, HighBelowLow 1, OutsideHighLow 1 1, ZeroVolume 1,
       Finished 2])"
  by code_simp

lemma example_canonical:
  "map (canonical example_pd ''TST'') (filter (complete example_pd) (rows example_raw)) =
     [[(''ticker'', Str ''TST''), (''date'', Date 738887), (''open'', Num 101),
       (''high'', Num 106), (''low'', Num 100), (''close'', Num 104), (''volume'', Num 1200)],
      [(''ticker'', Str ''TST''), (''date'', Date 738887), (''open'', Num 101),
       (''high'', Num 99), (''low'', Num 100), (''close'', Num 104), (''volume'', Num 0)]]"
  by code_simp

text \<open>
  Where a table comes back, lines 55 to 69 have filtered as they should: the rows of the
  cleaned table are the canonical records of the complete rows of the input, in their
  order; so every row whose five OHLCV cells all parse as numbers is in the output, and
  every row of the output holds five numbers.
\<close>

lemma completeness_filter:
  assumes "clean_ohlcv_data pd h (Some a) t = (Inr (Some r), h', ms)"
  shows "map snd (rows (h' ! r)) = map (canonical pd t) (filter (complete pd) (rows (h ! a))) \<and>
    (\<forall>x \<in> set (rows (h ! a)). complete pd x \<longrightarrow> canonical pd t x \<in> snd ` set (rows (h' ! r))) \<and>
    (\<forall>y \<in> set (rows (h' ! r)). \<forall>n \<in> set ohlcv_cols. \<exists>v. cell_at y n = Num v)"
proof -
  let ?K = "filter (complete pd) (rows (h ! a))"
  from clean_Some [OF assms]
  have out: "rows (h' ! r) = map (\<lambda>(i, x). (Num (of_nat i), canonical pd t x)) (enumerate 0 ?K)"
    by auto
  have eq: "map snd (rows (h' ! r)) = map (canonical pd t) ?K"
    unfolding out by (simp add: comp_def case_prod_unfold flip: map_map [of "canonical pd t" snd, unfolded comp_def])
  have num: "\<exists>v. to_numeric pd c = Num v" if "to_numeric pd c \<noteq> NA" for c
    using that by (cases c) (auto split: option.splits)
  have "\<exists>v. cell_at (l, canonical pd t x) n = Num v"
    if "complete pd x" "n \<in> set ohlcv_cols" for l x n
    using that num by (auto simp: complete_def canonical_def ohlcv_cols_def)
  note numeric = this
  have cells: "\<forall>y \<in> set (rows (h' ! r)). \<forall>n \<in> set ohlcv_cols. \<exists>v. cell_at y n = Num v"
  proof (intro ballI)
    fix y n assume "y \<in> set (rows (h' ! r))" and n: "n \<in> set ohlcv_cols"
    then obtain p where p: "p \<in> set (enumerate 0 ?K)"
      and y: "y = (Num (of_nat (fst p)), canonical pd t (snd p))"
      unfolding out by (auto simp: case_prod_unfold)
    from p have "snd p \<in> set (map snd (enumerate 0 ?K))" by (simp del: map_snd_enumerate)
    then have "complete pd (snd p)" by simp
    from numeric [OF this n] show "\<exists>v. cell_at y n = Num v" unfolding y .
  qed
  have "canonical pd t x \<in> snd ` set (rows (h' ! r))" if "x \<in> set (rows (h ! a))" "complete pd x" for x
  proof -
    have "canonical pd t x \<in> set (map (canonical pd t) ?K)" using that by simp
    then show ?thesis unfolding eq [symmetric] by simp
  qed
  with eq cells show ?thesis by blast
qed

lemma completeness_filter_example:
  "fst (clean_ohlcv_data example_pd [example_raw] (Some 0) ''TST'') = Inr (Some 2) \<and>
   map snd (rows (fst (snd (clean_ohlcv_data example_pd [example_raw] (Some 0) ''TST'')) ! 2)) =
     [[(''ticker'', Str ''TST''), (''date'', Date 738887), (''open'', Num 101),
       (''high'', Num 106), (''low'', Num 100), (''close'', Num 104), (''volume'', Num 1200)],
      [(''ticker'', Str ''TST''), (''date'', Date 738887), (''open'', Num 101),
       (''high'', Num 99), (''low'', Num 100), (''close'', Num 104), (''volume'', Num 0)]]"
proof -
  let ?run = "clean_ohlcv_data example_pd [example_raw] (Some 0) ''TST''"
  have run: "?run = (Inr (Some 2), fst (snd ?run), snd (snd ?run))"
    by (simp add: example_run)
  have "fst ?run = Inr (Some 2)"
    by (simp add: example_run)
  with completeness_filter [OF run, THEN conjunct1] show ?thesis
    by (simp add: example_canonical)
qed

lemma example_fetched_run:
  "clean_ohlcv_data example_pd [example_fetched] (Some 0) ''TST'' =
     (Inl ValueError,
      [example_fetched,
       \<lparr>index_name = Some ''date'', index_is_datetime = True,
        columns = [''open'', ''high'', ''low'', ''close'', ''volume'', ''date''],
        rows =
          [(Stamp (Timestamp 738887 0),
            [(''open'', Num 101), (''high'', Num 106), (''low'', Num 100),
             (''close'', Num 104), (''volume'', Num 1200),
             (''date'', Stamp (Timestamp 738887 0))])]\<rparr>],
      [Cleaning 1, UsedIndexAsDate, Finished 1])"
  by code_simp

text \<open>
  No table comes back for a table whose index is named \<^verbatim>\<open>date\<close>, or that has a column
  \<^verbatim>\<open>date\<close> and no \<^verbatim>\<open>DatetimeIndex\<close>: where the function gets as far as line 99,
  \<^verbatim>\<open>reset_index\<close> raises.
\<close>

lemma clean_ohlcv_data_date_label_taken:
  assumes "index_name (h ! a) = Some ''date'' \<or>
      (\<not> index_is_datetime (h ! a) \<and> ''date'' \<in> set (columns (h ! a)))"
  shows "fst (clean_ohlcv_data pd h (Some a) t) \<noteq> Inr (Some r)"
proof
  assume "fst (clean_ohlcv_data pd h (Some a) t) = Inr (Some r)"
  then have "clean_ohlcv_data pd h (Some a) t =
      (Inr (Some r), fst (snd (clean_ohlcv_data pd h (Some a) t)),
       snd (snd (clean_ohlcv_data pd h (Some a) t)))"
    by (simp add: prod_eq_iff)
  from clean_Some [OF this] assms show False by auto
qed

lemma example_dated_run:
  "clean_ohlcv_data example_pd [example_dated] (Some 0) ''TST'' =
     (Inl ValueError,
      [example_dated,
       \<lparr>index_name = None, index_is_datetime = False,
        columns = [''date'', ''open'', ''high'', ''low'', ''close'', ''volume''],
        rows =
          [(Num 0,
            [(''date'', Stamp (Timestamp 738886 0)), (''open'', Num 100),
             (''high'', Num 105), (''low'', Num 99), (''close'', Str ''bad''),
             (''volume'', Num 1000)]),
           (Num 1,
            [(''date'', Stamp (Timestamp 738887 0)), (''open'', Num 101),
             (''high'', Num 106), (''low'', Num 100), (''close'', Num 104),
             (''volume'', Num 1200)])]\<rparr>,
       \<lparr>index_name = Some ''date'', index_is_datetime = True,
        columns = [''date'', ''open'', ''high'', ''low'', ''close'', ''volume''],
        rows =
          [(Stamp (Timestamp 738887 0),
            [(''date'', Stamp (Timestamp 738887 0)), (''open'', Num 101),
             (''high'', Num 106), (''low'', Num 100), (''close'', Num 104),
             (''volume'', Num 1200)])]\<rparr>],
      [Cleaning 2, DroppedRows 1, Finished 1])"
  by code_simp

text \<open>
  C2. The claim fails for a table with a column \<^verbatim>\<open>date\<close>, one of the three kinds of table
  that are to be accepted. In \<open>example_dated\<close> the second row is complete and the first is
  not. The function finds the five columns and the dates, drops the first row and keeps
  the second (\<open>DroppedRows 1\<close>, \<open>Finished 1\<close>); then \<^verbatim>\<open>reset_index\<close> on line 99 raises
  \<^verbatim>\<open>ValueError\<close>, since line 38 has kept the column \<^verbatim>\<open>date\<close> beside the index of this
  name. No table comes back: the complete row is in no output.
\<close>

theorem complete_row_not_returned:
  "map (complete example_pd) (rows example_dated) = [False, True] \<and>
   fst (clean_ohlcv_data example_pd [example_dated] (Some 0) ''TST'') = Inl ValueError \<and>
   snd (snd (clean_ohlcv_data example_pd [example_dated] (Some 0) ''TST'')) =
     [Cleaning 2, DroppedRows 1, Finished 1]"
proof -
  have "map (complete example_pd) (rows example_dated) = [False, True]"
    by code_simp
  then show ?thesis
    by (simp add: example_dated_run)
qed

text \<open>
  C10. A table that \<open>clean_ohlcv_data\<close> returns has at least one row (and its seven
  columns): the function returns no empty table.
\<close>

theorem cleaned_table_not_empty:
  assumes "clean_ohlcv_data pd h df t = (Inr (Some r), h', ms)"
  shows "rows (h' ! r) \<noteq> [] \<and> \<not> df_empty (h' ! r)"
proof -
  from clean_Some [OF assms]
  have "filter (complete pd) (case df of Some a \<Rightarrow> rows (h ! a) | None \<Rightarrow> []) \<noteq> []"
    and "h' ! r = \<lparr>index_name = None, index_is_datetime = False, columns = final_cols,
        rows = map (\<lambda>(i, x). (Num (of_nat i), canonical pd t x))
          (enumerate 0 (filter (complete pd) (case df of Some a \<Rightarrow> rows (h ! a) | None \<Rightarrow> [])))\<rparr>"
    by auto
  then show ?thesis
    by (simp add: df_empty_def final_cols_def enumerate_eq_zip)
qed

theorem cleaned_table_not_empty_witness:
  "fst (clean_ohlcv_data example_pd [example_raw] (Some 0) ''TST'') = Inr (Some 2) \<and>
   length (rows (fst (snd (clean_ohlcv_data example_pd [example_raw] (Some 0) ''TST'')) ! 2)) = 2 \<and>
   rows (fst (snd (clean_ohlcv_data example_pd [example_raw] (Some 0) ''TST'')) ! 2) \<noteq> []"
proof -
  let ?run = "clean_ohlcv_data example_pd [example_raw] (Some 0) ''TST''"
  have run: "?run = (Inr (Some 2), fst (snd ?run), snd (snd ?run))"
    by (simp add: example_run)
  have "fst ?run = Inr (Some 2)" "length (rows (fst (snd ?run) ! 2)) = 2"
    by (simp_all add: example_run)
  with cleaned_table_not_empty [OF run] show ?thesis
    by simp
qed

text \<open>
  C9. Cleaning does not change its argument: whatever the call returns or raises, every
  table that existed before the call, the caller's one among them, is the same after it.
\<close>

theorem caller_table_unchanged:
  "take (length h) (fst (snd (clean_ohlcv_data pd h df t))) = h \<and>
   (\<forall>a < length h. fst (snd (clean_ohlcv_data pd h df t)) ! a = h ! a)"
proof -
  have "take (length h) (fst (snd (clean_ohlcv_data pd h df t))) = h"
    by (rule clean_keeps_heap)
  moreover from this have "fst (snd (clean_ohlcv_data pd h df t)) ! a = h ! a"
    if "a < length h" for a
    using that by (metis nth_take)
  ultimately show ?thesis by blast
qed

theorem caller_table_unchanged_witness:
  "(0::nat) < length [example_raw] \<and>
   fst (clean_ohlcv_data example_pd [example_raw] (Some 0) ''TST'') = Inr (Some 2) \<and>
   fst (snd (clean_ohlcv_data example_pd [example_raw] (Some 0) ''TST'')) ! 0 = example_raw \<and>
   fst (clean_ohlcv_data example_pd [example_fetched] (Some 0) ''TST'') = Inl ValueError \<and>
   fst (snd (clean_ohlcv_data example_pd [example_fetched] (Some 0) ''TST'')) ! 0 = example_fetched"
proof -
  have "fst (clean_ohlcv_data example_pd [example_raw] (Some 0) ''TST'') = Inr (Some 2)"
    by (simp add: example_run)
  moreover have "fst (clean_ohlcv_data example_pd [example_fetched] (Some 0) ''TST'') = Inl ValueError"
    by (simp add: example_fetched_run)
  moreover have "fst (snd (clean_ohlcv_data example_pd [example_raw] (Some 0) ''TST'')) ! 0 =
      example_raw"
    using caller_table_unchanged [of "[example_raw]" example_pd "Some 0" "''TST''"] by simp
  moreover have "fst (snd (clean_ohlcv_data example_pd [example_fetched] (Some 0) ''TST'')) ! 0 =
      example_fetched"
    using caller_table_unchanged [of "[example_fetched]" example_pd "Some 0" "''TST''"] by simp
  ultimately show ?thesis by simp
qed

lemma rows_returned:
  assumes "clean_ohlcv_data pd h (Some a) t = (Inr (Some r), h', ms)"
  shows "rows (h' ! r) = map (\<lambda>(i, x). (Num (of_nat i), canonical pd t x))
      (enumerate 0 (filter (complete pd) (rows (h ! a))))"
    and "columns (h' ! r) = final_cols"
    and "\<exists>pre. ms = pre @ anomaly_report (rows (h' ! r))"
  using clean_Some [OF assms] by auto

lemma map_over_enumerate: "map (\<lambda>(i, x). f x) (enumerate n xs) = map f xs"
proof -
  have "map (\<lambda>(i, x). f x) (enumerate n xs) = map f (map snd (enumerate n xs))"
    by (simp add: case_prod_unfold comp_def del: map_snd_enumerate)
  then show ?thesis by simp
qed

lemma filter_over_enumerate:
  "map snd (filter (\<lambda>(i, x). P x) (enumerate n xs)) = filter P xs"
proof -
  have "filter P (map snd (enumerate n xs)) = map snd (filter (P \<circ> snd) (enumerate n xs))"
    by (rule filter_map)
  then show ?thesis by (simp add: comp_def case_prod_unfold)
qed

lemma is_date_dt_date [simp]: "is_date (dt_date c)"
  by (cases c) auto

text \<open>
  C8 (as amended). A table that \<open>clean_ohlcv_data\<close> returns has the seven canonical
  columns, and its column \<^verbatim>\<open>date\<close> holds, row by row, the date keys of the complete rows
  of the input: calendar dates without a time of day (or \<open>NaT\<close>). The rows are not
  deduplicated: the dates of the table are distinct exactly when the date keys of the
  complete input rows are.
\<close>

theorem cleaned_dates:
  assumes "clean_ohlcv_data pd h (Some a) t = (Inr (Some r), h', ms)"
  shows "columns (h' ! r) = final_cols \<and>
    col (h' ! r) ''date'' = map (date_key pd) (filter (complete pd) (rows (h ! a))) \<and>
    list_all is_date (col (h' ! r) ''date'') \<and>
    (distinct (col (h' ! r) ''date'') \<longleftrightarrow>
       distinct (map (date_key pd) (filter (complete pd) (rows (h ! a)))))"
proof -
  have "col (h' ! r) ''date'' = map (date_key pd) (filter (complete pd) (rows (h ! a)))"
    unfolding col_def rows_returned(1) [OF assms]
    by (simp add: comp_def case_prod_unfold canonical_def cell_at_def
        map_over_enumerate [of "date_key pd", unfolded case_prod_unfold])
  moreover have "list_all is_date (map (date_key pd) xs)" for xs
    by (simp add: list_all_iff date_key_def)
  ultimately show ?thesis
    using rows_returned(2) [OF assms] by simp
qed

theorem cleaned_dates_witness:
  "fst (clean_ohlcv_data example_pd [example_raw] (Some 0) ''TST'') = Inr (Some 2) \<and>
   columns (fst (snd (clean_ohlcv_data example_pd [example_raw] (Some 0) ''TST'')) ! 2) =
     final_cols \<and>
   list_all is_date
     (col (fst (snd (clean_ohlcv_data example_pd [example_raw] (Some 0) ''TST'')) ! 2) ''date'')"
proof -
  let ?run = "clean_ohlcv_data example_pd [example_raw] (Some 0) ''TST''"
  have run: "?run = (Inr (Some 2), fst (snd ?run), snd (snd ?run))"
    by (simp add: example_run)
  have "fst ?run = Inr (Some 2)"
    by (simp add: example_run)
  with cleaned_dates [OF run] show ?thesis
    by blast
qed

text \<open>
  C8 (as stated) fails: the two complete rows of the example are of the same day, and
  the returned table has a row for each, with the same date.
\<close>

theorem cleaned_dates_duplicate_counterexample:
  "fst (clean_ohlcv_data example_pd [example_raw] (Some 0) ''TST'') = Inr (Some 2) \<and>
   col (fst (snd (clean_ohlcv_data example_pd [example_raw] (Some 0) ''TST'')) ! 2) ''date'' =
     [Date 738887, Date 738887] \<and>
   \<not> distinct
     (col (fst (snd (clean_ohlcv_data example_pd [example_raw] (Some 0) ''TST'')) ! 2) ''date'')"
  by (simp add: example_run col_def cell_at_def)

lemma cell_at_label: "cell_at (l, al) n = cell_at (l', al) n"
  by (simp add: cell_at_def)

lemma anomalous_label: "anomalous (l, al) = anomalous (l', al)"
  unfolding anomalous_def high_below_low_def outside_high_low_def zero_volume_def
    negative_value_def
  by (simp only: cell_at_label [of l al _ l'])

lemma anomaly_report_reports:
  "(filter high_below_low rs \<noteq> [] \<longrightarrow>
      HighBelowLow (length (filter high_below_low rs)) \<in> set (anomaly_report rs)) \<and>
   (filter (outside_high_low ''close'') rs \<noteq> [] \<or> filter (outside_high_low ''open'') rs \<noteq> [] \<longrightarrow>
      OutsideHighLow (length (filter (outside_high_low ''close'') rs))
        (length (filter (outside_high_low ''open'') rs)) \<in> set (anomaly_report rs)) \<and>
   (filter zero_volume rs \<noteq> [] \<longrightarrow>
      ZeroVolume (length (filter zero_volume rs)) \<in> set (anomaly_report rs)) \<and>
   (list_ex negative_value rs \<longrightarrow> NegativeValues \<in> set (anomaly_report rs))"
  by (simp add: anomaly_report_def Let_def)

text \<open>
  Lines 73 to 92 report and remove nothing. Where a table comes back, it has a row for
  every complete row of the input; its anomalous rows (high below low, close or open
  outside low and high, no volume, a negative value) are the canonical records of the
  anomalous complete rows of the input; and the last messages printed are the report of
  these anomalies, with their counts.
\<close>

lemma anomalies_reported_and_kept:
  assumes "clean_ohlcv_data pd h (Some a) t = (Inr (Some r), h', ms)"
  shows "length (rows (h' ! r)) = length (filter (complete pd) (rows (h ! a))) \<and>
    map snd (filter anomalous (rows (h' ! r))) =
      map (canonical pd t)
        (filter (\<lambda>x. anomalous (NA, canonical pd t x)) (filter (complete pd) (rows (h ! a)))) \<and>
    (\<exists>pre. ms = pre @ anomaly_report (rows (h' ! r))) \<and>
    (filter high_below_low (rows (h' ! r)) \<noteq> [] \<longrightarrow>
       HighBelowLow (length (filter high_below_low (rows (h' ! r)))) \<in> set ms) \<and>
    (filter (outside_high_low ''close'') (rows (h' ! r)) \<noteq> [] \<or>
     filter (outside_high_low ''open'') (rows (h' ! r)) \<noteq> [] \<longrightarrow>
       OutsideHighLow (length (filter (outside_high_low ''close'') (rows (h' ! r))))
         (length (filter (outside_high_low ''open'') (rows (h' ! r)))) \<in> set ms) \<and>
    (filter zero_volume (rows (h' ! r)) \<noteq> [] \<longrightarrow>
       ZeroVolume (length (filter zero_volume (rows (h' ! r)))) \<in> set ms) \<and>
    (list_ex negative_value (rows (h' ! r)) \<longrightarrow> NegativeValues \<in> set ms)"
proof -
  let ?K = "filter (complete pd) (rows (h ! a))"
  let ?f = "\<lambda>(i, x). (Num (of_nat i), canonical pd t x)"
  let ?P = "\<lambda>x. anomalous (NA, canonical pd t x)"
  note out = rows_returned(1) [OF assms]
  obtain pre where ms: "ms = pre @ anomaly_report (rows (h' ! r))"
    using rows_returned(3) [OF assms] by blast
  have len: "length (rows (h' ! r)) = length ?K"
    unfolding out by simp
  have "filter anomalous (rows (h' ! r)) = map ?f (filter (\<lambda>(i, x). ?P x) (enumerate 0 ?K))"
    unfolding out filter_map
    by (simp add: comp_def case_prod_unfold anomalous_label [of "Num _" _ NA])
  then have "map snd (filter anomalous (rows (h' ! r))) =
      map (canonical pd t) (map snd (filter (\<lambda>(i, x). ?P x) (enumerate 0 ?K)))"
    by (simp add: comp_def case_prod_unfold)
  then have kept: "map snd (filter anomalous (rows (h' ! r))) = map (canonical pd t) (filter ?P ?K)"
    unfolding filter_over_enumerate .
  show ?thesis
    using len kept ms anomaly_report_reports [of "rows (h' ! r)"]
    by (auto simp: ms)
qed

lemma example_anomalous:
  "filter (\<lambda>x. anomalous (NA, canonical example_pd ''TST'' x))
     (filter (complete example_pd) (rows example_raw)) =
     [example_row 738887 3600 [Num 101, Num 99, Num 100, Num 104, Num 0]]"
  by code_simp

lemma anomalies_reported_and_kept_example:
  "fst (clean_ohlcv_data example_pd [example_raw] (Some 0) ''TST'') = Inr (Some 2) \<and>
   map snd (filter anomalous
     (rows (fst (snd (clean_ohlcv_data example_pd [example_raw] (Some 0) ''TST'')) ! 2))) =
     [[(''ticker'', Str ''TST''), (''date'', Date 738887), (''open'', Num 101),
       (''high'', Num 99), (''low'', Num 100), (''close'', Num 104), (''volume'', Num 0)]] \<and>
   HighBelowLow 1 \<in> set (snd (snd (clean_ohlcv_data example_pd [example_raw] (Some 0) ''TST'')))"
proof -
  let ?run = "clean_ohlcv_data example_pd [example_raw] (Some 0) ''TST''"
  have run: "?run = (Inr (Some 2), fst (snd ?run), snd (snd ?run))"
    by (simp add: example_run)
  have "fst ?run = Inr (Some 2)" "HighBelowLow 1 \<in> set (snd (snd ?run))"
    by (simp_all add: example_run)
  moreover have "canonical example_pd ''TST''
      (example_row 738887 3600 [Num 101, Num 99, Num 100, Num 104, Num 0]) =
      [(''ticker'', Str ''TST''), (''date'', Date 738887), (''open'', Num 101),
       (''high'', Num 99), (''low'', Num 100), (''close'', Num 104), (''volume'', Num 0)]"
    by code_simp
  ultimately show ?thesis
    using anomalies_reported_and_kept [OF run, THEN conjunct2, THEN conjunct1]
    by (simp add: example_anomalous del: filter_filter)
qed



section \<open>Properties of the storage engine\<close>

lemma lookup_name_np: "lookup_name ''np'' = Inl (NameError ''np'')"
  by (simp add: lookup_name_def database_globals_def)

text \<open>
  Every call that gets past the checks of lines 63 to 79 raises \<^verbatim>\<open>NameError\<close> on line 81,
  before the \<^verbatim>\<open>try\<close>, and writes nothing.
\<close>

lemma insert_ohlcv_data_raises:
  assumes "\<not> df_empty f" and "set final_cols \<subseteq> set (columns f)"
    and "to_datetime_all pd (col f ''date'') = Inr ds"
  shows "insert_ohlcv_data pd (Some db) (Some f) = (Inl (NameError ''np''), Some db, [])"
proof -
  have "set final_cols \<subseteq> set (columns (set_col ''date'' (map dt_date ds) f))"
    using assms(2) by (auto simp: set_col_def)
  then obtain g where "select final_cols (set_col ''date'' (map dt_date ds) f) = Inr g"
    by (simp add: select_def)
  then show ?thesis
    using assms by (simp add: insert_ohlcv_data_def lookup_name_np)
qed

lemma insert_ohlcv_data_writes_nothing:
  "fst (snd (insert_ohlcv_data pd engine df)) = engine"
  by (simp add: insert_ohlcv_data_def lookup_name_np Let_def split: option.splits sum.splits)

text \<open>
  The statement of lines 88 to 94 by itself: executed a second time it changes nothing,
  it leaves the proposed values under their keys and every other row as it was, and it
  keeps the keys of the table distinct.
\<close>

lemma map_of_foldl_update:
  "map_of (foldl (\<lambda>t (k, v). AList.update k v t) t vs) = map_of t ++ map_of (rev vs)"
proof (induction vs arbitrary: t)
  case Nil
  then show ?case by simp
next
  case (Cons x vs)
  obtain k v where x: "x = (k, v)" by (cases x)
  have "map_of (foldl (\<lambda>t (k, v). AList.update k v t) t (x # vs)) =
      (map_of t)(k \<mapsto> v) ++ map_of (rev vs)"
    by (simp add: x Cons.IH update_conv' fun_upd_def)
  also have "\<dots> = map_of t ++ map_of (rev (x # vs))"
    by (simp add: x map_add_upd_left map_add_assoc [symmetric] fun_eq_iff map_add_def
        split: option.splits)
  finally show ?case .
qed

lemma distinct_foldl_update:
  "distinct (map fst t) \<Longrightarrow> distinct (map fst (foldl (\<lambda>t (k, v). AList.update k v t) t vs))"
  by (induction vs arbitrary: t) (auto simp: distinct_update)

lemma foldl_update_present:
  "(\<And>k v. (k, v) \<in> set vs \<Longrightarrow> map_of t k = Some v) \<Longrightarrow>
   foldl (\<lambda>t (k, v). AList.update k v t) t vs = t"
  by (induction vs) (auto simp: update_triv)

lemma pg_upsert_properties:
  assumes "pg_upsert t vs = Inr t'"
  shows "pg_upsert t' vs = Inr t'"
    and "(k, v) \<in> set vs \<Longrightarrow> map_of t' k = Some v"
    and "k \<notin> fst ` set vs \<Longrightarrow> map_of t' k = map_of t k"
    and "distinct (map fst t) \<Longrightarrow> distinct (map fst t')"
proof -
  from assms have d: "distinct (map fst vs)"
    and t': "t' = foldl (\<lambda>t (k, v). AList.update k v t) t vs"
    by (auto simp: pg_upsert_def split: if_splits)
  have in_vs: "map_of t' k = Some v" if "(k, v) \<in> set vs" for k v
  proof -
    have "map_of (rev vs) k = Some v"
      using d that by (intro map_of_is_SomeI) (simp_all add: rev_map [symmetric])
    then show ?thesis by (simp add: t' map_of_foldl_update)
  qed
  then show "(k, v) \<in> set vs \<Longrightarrow> map_of t' k = Some v" .
  from in_vs have "foldl (\<lambda>t (k, v). AList.update k v t) t' vs = t'"
    by (rule foldl_update_present)
  with d show "pg_upsert t' vs = Inr t'"
    by (simp add: pg_upsert_def)
  show "map_of t' k = map_of t k" if "k \<notin> fst ` set vs"
  proof -
    have "map_of (rev vs) k = None"
      using that by (simp add: map_of_eq_None_iff)
    then show ?thesis by (simp add: t' map_of_foldl_update map_add_def)
  qed
  show "distinct (map fst t')" if "distinct (map fst t)"
    using that by (simp add: t' distinct_foldl_update)
qed

text \<open>
  C6. The claim holds of no table with a canonical row: for the one of the example, with
  the database reachable, the call raises \<^verbatim>\<open>NameError\<close> instead of returning.
\<close>

theorem insert_propagates_name_error:
  "insert_ohlcv_data example_pd (Some example_db) (Some example_canonical_table) =
     (Inl (NameError ''np''), Some example_db, [])"
  by (rule insert_ohlcv_data_raises [where ds = "[Stamp (Timestamp 738887 0)]"])
     (simp_all add: example_canonical_table_def df_empty_def final_cols_def col_def cell_at_def)

text \<open>
  C1. The stored row of \<open>(TST, 2024-01-02)\<close> has close \<open>104\<close>; the table to write has
  close \<open>110\<close> for this key. After the call the stored row is as before: the update is
  not written. The statement of lines 88 to 94 itself, had it been executed, would have
  overwritten the row.
\<close>

theorem insert_discards_update:
  "cell_at (hd (rows example_canonical_table)) ''close'' = Num 110 \<and>
   map_of (ohlcv_data example_db) (''TST'', 738887) =
     Some (Some 101, Some 106, Some 100, Some 104, Some 1200) \<and>
   fst (snd (insert_ohlcv_data example_pd (Some example_db) (Some example_canonical_table))) =
     Some example_db \<and>
   map_option (\<lambda>db. map_of (ohlcv_data db) (''TST'', 738887))
     (case execute_upsert example_db (rows example_canonical_table) of
        Inl e \<Rightarrow> None | Inr db \<Rightarrow> Some db) =
     Some (Some (Some 101, Some 106, Some 100, Some 110, Some 1200))"
proof -
  have "execute_upsert example_db (rows example_canonical_table) =
      Inr (example_db\<lparr>ohlcv_data :=
        [((''TST'', 738888), (Some 102, Some 107, Some 101, Some (1 / 10), Some 900)),
         ((''ABC'', 738887), (Some 5, Some 6, Some 4, Some 5, None)),
         ((''TST'', 738887), (Some 101, Some 106, Some 100, Some 110, Some 1200)),
         ((''TST'', 738886), (Some 100, Some 105, Some 99, Some (207 / 2), Some 1000))]\<rparr>)"
    by code_simp
  then show ?thesis
    by (simp add: insert_ohlcv_data_writes_nothing)
       (simp add: example_canonical_table_def example_db_def cell_at_def final_cols_def)
qed

lemma pow2_powi: "pow2 e = 2 powi e"
  by (simp add: pow2_def power_int_def field_simps)

lemma round_half_even_of_int [simp]: "round_half_even (of_int n) = n"
  by (simp add: round_half_even_def)

lemma ilog2_lower:
  assumes "0 < x"
  shows "pow2 (ilog2 x) \<le> x"
proof -
  obtain p q where pq: "quotient_of x = (p, q)" by force
  have q: "0 < q" and x: "x = of_int p / of_int q"
    using quotient_of_denom_pos [OF pq] quotient_of_div [OF pq] by simp_all
  have p: "0 < p"
    using assms q unfolding x by (simp add: zero_less_divide_iff)
  define d where "d = bitlen p - bitlen q"
  show ?thesis
  proof (cases "pow2 d \<le> x")
    case True
    then show ?thesis by (simp add: ilog2_def pq d_def)
  next
    case False
    then have il: "ilog2 x = d - 1" by (simp add: ilog2_def pq d_def)
    from bitlen_bounds [OF p] have lo: "2 ^ nat (bitlen p - 1) \<le> p" by simp
    from bitlen_bounds [OF q] have hi: "q < 2 ^ nat (bitlen q)" by simp
    have bp: "1 \<le> bitlen p"
      using p by (simp add: bitlen_def floorlog_def)
    have bq: "0 \<le> bitlen q" by (rule bitlen_nonneg)
    have "(2::rat) powi (bitlen p - 1) = of_int (2 ^ nat (bitlen p - 1))"
      using bp by (simp add: power_int_def)
    also have "\<dots> \<le> of_int p" using lo by (simp only: of_int_le_iff)
    finally have num: "(2::rat) powi (bitlen p - 1) \<le> of_int p" .
    have "(of_int q :: rat) \<le> of_int (2 ^ nat (bitlen q))"
      using hi by (simp only: of_int_le_iff)
    also have "\<dots> = 2 powi bitlen q"
      using bq by (simp add: power_int_def)
    finally have den: "(of_int q :: rat) \<le> 2 powi bitlen q" .
    have "(2::rat) powi (d - 1) = 2 powi (bitlen p - 1) / 2 powi bitlen q"
      by (simp add: d_def power_int_diff [symmetric] algebra_simps)
    also have "\<dots> \<le> of_int p / of_int q"
      using num den q p by (intro frac_le) (simp_all add: zero_less_power_int less_imp_le)
    finally have "(2::rat) powi (d - 1) \<le> x" by (simp add: x)
    then show ?thesis by (simp add: il pow2_powi)
  qed
qed

lemma float64_exact:
  assumes x: "x = of_int m * pow2 k" and m: "\<bar>m\<bar> < 2 ^ 53"
  shows "float64 x = x"
proof (cases "m = 0")
  case True
  then show ?thesis by (simp add: x float64_def)
next
  case False
  define E where "E = ilog2 \<bar>x\<bar>"
  have pos: "0 < \<bar>x\<bar>" using False by (simp add: x pow2_powi)
  have absx: "\<bar>x\<bar> = of_int \<bar>m\<bar> * 2 powi k"
    by (simp add: x pow2_powi abs_mult)
  have "2 powi E \<le> \<bar>x\<bar>"
    using ilog2_lower [OF pos] by (simp add: E_def pow2_powi)
  also have "\<bar>x\<bar> < 2 ^ 53 * 2 powi k"
    unfolding absx using m by (intro mult_strict_right_mono) (simp_all add: zero_less_power_int flip: of_int_less_iff [where ?'a = rat])
  also have "\<dots> = 2 powi (k + 53)"
    by (simp add: power_int_add)
  finally have "(2::rat) powi E < 2 powi (k + 53)" .
  then have "E < k + 53"
    by (metis linorder_not_less power_int_increasing one_le_numeral)
  define j where "j = k - (E - 52)"
  have j: "0 \<le> j" using \<open>E < k + 53\<close> by (simp add: j_def)
  have "x / pow2 (E - 52) = of_int m * 2 powi j"
    by (simp add: x pow2_powi j_def power_int_diff)
  also have "\<dots> = of_int (m * 2 ^ nat j)"
    using j by (simp add: power_int_def)
  finally have q: "x / pow2 (E - 52) = of_int (m * 2 ^ nat j)" .
  have "float64 x = of_int (m * 2 ^ nat j) * pow2 (E - 52)"
    using pos by (simp add: float64_def E_def [symmetric] Let_def q del: of_int_mult of_int_power)
  also have "\<dots> = x"
    unfolding q [symmetric] by (simp add: pow2_powi)
  finally show ?thesis .
qed

lemma to_numeric_float_cell [simp]: "to_numeric pd (float_cell v) = float_cell v"
  by (cases v) auto

lemma coerce_read_row:
  assumes "n \<in> set ohlcv_cols"
  shows "upd n (to_numeric pd (cell_at (read_row x) n)) (read_row x) = read_row x"
proof -
  obtain t d op hi lo cl vo where x: "x = ((t, d), (op, hi, lo, cl, vo))"
    by (metis prod.collapse)
  show ?thesis
    using assms by (auto simp: x upd_def ohlcv_cols_def)
qed

lemma coerce_read_sql:
  assumes "n \<in> set ohlcv_cols"
  shows "set_col n (map (to_numeric pd) (col (read_sql xs) n)) (read_sql xs) = read_sql xs"
proof -
  have "set_col n (map (\<lambda>r. to_numeric pd (cell_at r n)) (rows (read_sql xs))) (read_sql xs) =
      read_sql xs"
    unfolding set_col_map using assms
    by (simp add: read_sql_def coerce_read_row)
  then show ?thesis by (simp add: col_def comp_def)
qed

lemma coerce_loop_read_sql:
  assumes "set ns \<subseteq> set ohlcv_cols"
  shows "foldl (\<lambda>df n. if n \<in> set (columns df)
           then set_col n (map (to_numeric pd) (col df n)) df else df) (read_sql xs) ns =
      read_sql xs"
  using assms by (induction ns) (simp_all add: coerce_read_sql)

lemma fetch_ohlcv_data_connected:
  assumes "connects db" and "date_bound pd s = Inr lo" and "date_bound pd e = Inr hi"
    and "lo \<noteq> Some NaT" and "hi \<noteq> Some NaT"
  shows "fetch_ohlcv_data pd (Some db) t s e =
      Inr (read_sql (select_ohlcv t lo hi (ohlcv_data db)))"
  using assms by (simp add: fetch_ohlcv_data_def coerce_loop_read_sql)

lemma fetch_ohlcv_data_rows:
  assumes "fetch_ohlcv_data pd (Some db) t s e = Inr df"
  shows "\<exists>lo hi. rows df = map read_row (select_ohlcv t lo hi (ohlcv_data db))"
proof -
  obtain lo hi where b: "date_bound pd s = Inr lo" "date_bound pd e = Inr hi"
    using assms by (auto simp: fetch_ohlcv_data_def split: sum.splits)
  show ?thesis
  proof (cases "\<not> connects db \<or> lo = Some NaT \<or> hi = Some NaT")
    case True
    then have "df = empty_frame"
      using assms b by (auto simp: fetch_ohlcv_data_def)
    moreover have "select_ohlcv t (Some NaT) None (ohlcv_data db) = []"
      by (simp add: select_ohlcv_def)
    ultimately have "rows df = map read_row (select_ohlcv t (Some NaT) None (ohlcv_data db))"
      by (simp add: empty_frame_def)
    then show ?thesis by blast
  next
    case False
    with fetch_ohlcv_data_connected [OF _ b, of db t] assms
    have "df = read_sql (select_ohlcv t lo hi (ohlcv_data db))" by simp
    then show ?thesis by (auto simp: read_sql_def)
  qed
qed

lemma not_before_Date:
  "not_before (map_option Date lo) d = (case lo of None \<Rightarrow> True | Some a \<Rightarrow> a \<le> d)"
  by (cases lo) auto

lemma not_after_Date:
  "not_after (map_option Date hi) d = (case hi of None \<Rightarrow> True | Some b \<Rightarrow> d \<le> b)"
  by (cases hi) auto

lemma row_date_read_row [simp]: "row_date (read_row x) = snd (fst x)"
proof -
  obtain t d op hi lo cl vo where x: "x = ((t, d), (op, hi, lo, cl, vo))"
    by (metis prod.collapse)
  show ?thesis by (simp add: x)
qed

lemma date_bound_spec_date_of:
  assumes "\<forall>a. b = Some a \<longrightarrow> spec_date_of pd a \<noteq> None"
  shows "date_bound pd b = Inr (map_option Date (Option.bind b (spec_date_of pd)))"
proof (cases b)
  case None
  then show ?thesis by simp
next
  case (Some a)
  show ?thesis
  proof (cases a)
    case (DateArg d)
    with Some show ?thesis by simp
  next
    case (StrArg str)
    with Some assms have ne: "str \<noteq> []" and "spec_date_of pd (StrArg str) \<noteq> None"
      by auto
    then obtain ts where "datetime_of_obj pd (Str str) = Inr (Some ts)"
      by (auto split: sum.splits option.splits)
    with ne show ?thesis
      by (simp add: Some StrArg)
  qed
qed

text \<open>
  C3. Range query bounds: with the database reachable, and each bound either left out or
  standing for a date (a date, or a string in which the library reads one),
  \<open>fetch_ohlcv_data\<close> returns a table of the stored rows of the ticker whose date is in
  the range of the two bounds of the caller, each as \<open>read_row\<close> delivers it and as often
  as it is stored, in ascending order of date; the table has its six columns, and no row
  exactly when no stored row matches.
\<close>

theorem range_query:
  assumes "connects db"
    and "\<forall>a. start_date = Some a \<longrightarrow> spec_date_of pd a \<noteq> None"
    and "\<forall>a. end_date = Some a \<longrightarrow> spec_date_of pd a \<noteq> None"
  shows "\<exists>df. fetch_ohlcv_data pd (Some db) t start_date end_date = Inr df \<and>
     columns df = ''ticker'' # ohlcv_cols \<and>
     mset (rows df) =
       image_mset read_row
         (filter_mset
            (\<lambda>x. fst (fst x) = t \<and>
               spec_in_range (Option.bind start_date (spec_date_of pd))
                 (Option.bind end_date (spec_date_of pd)) (snd (fst x)))
            (mset (ohlcv_data db))) \<and>
     sorted (map row_date (rows df)) \<and>
     (rows df = [] \<longleftrightarrow>
        \<not> (\<exists>x \<in> set (ohlcv_data db). fst (fst x) = t \<and>
               spec_in_range (Option.bind start_date (spec_date_of pd))
                 (Option.bind end_date (spec_date_of pd)) (snd (fst x))))"
proof -
  let ?lo = "Option.bind start_date (spec_date_of pd)"
  let ?hi = "Option.bind end_date (spec_date_of pd)"
  let ?P = "\<lambda>x. fst (fst x) = t \<and> spec_in_range ?lo ?hi (snd (fst x))"
  let ?sel = "select_ohlcv t (map_option Date ?lo) (map_option Date ?hi) (ohlcv_data db)"
  have sel: "?sel = sort_key (\<lambda>x. snd (fst x)) (filter ?P (ohlcv_data db))"
    by (simp add: select_ohlcv_def not_before_Date not_after_Date spec_in_range_def)
  have "map_option Date ?lo \<noteq> Some NaT" "map_option Date ?hi \<noteq> Some NaT"
    by auto
  from fetch_ohlcv_data_connected [OF assms(1) date_bound_spec_date_of [OF assms(2)]
      date_bound_spec_date_of [OF assms(3)] this]
  have f: "fetch_ohlcv_data pd (Some db) t start_date end_date = Inr (read_sql ?sel)" .
  have "mset (rows (read_sql ?sel)) = image_mset read_row (filter_mset ?P (mset (ohlcv_data db)))"
    unfolding sel by (simp add: read_sql_def)
  moreover have "sorted (map row_date (rows (read_sql ?sel)))"
    unfolding sel by (simp add: read_sql_def comp_def)
  moreover have "rows (read_sql ?sel) = [] \<longleftrightarrow> \<not> (\<exists>x \<in> set (ohlcv_data db). ?P x)"
  proof -
    have "rows (read_sql ?sel) = [] \<longleftrightarrow> set ?sel = {}"
      by (simp add: read_sql_def)
    also have "\<dots> \<longleftrightarrow> \<not> (\<exists>x \<in> set (ohlcv_data db). ?P x)"
      unfolding sel set_sort set_filter by blast
    finally show ?thesis .
  qed
  moreover have "columns (read_sql ?sel) = ''ticker'' # ohlcv_cols"
    by (simp add: read_sql_def)
  ultimately show ?thesis
    using f by blast
qed

theorem range_query_witness:
  "connects example_db \<and>
   spec_date_of example_pd_dates (StrArg ''2024-01-02'') = Some 738887 \<and>
   spec_date_of example_pd_dates (DateArg 738887) = Some 738887 \<and>
   (\<exists>df. fetch_ohlcv_data example_pd_dates (Some example_db) ''TST''
            (Some (StrArg ''2024-01-02'')) (Some (DateArg 738887)) = Inr df \<and>
      rows df =
        [read_row ((''TST'', 738887), (Some 101, Some 106, Some 100, Some 104, Some 1200))]) \<and>
   (\<exists>df. fetch_ohlcv_data example_pd_dates (Some example_db) ''TST''
            (Some (StrArg ''2024-01-02'')) None = Inr df \<and>
      map row_date (rows df) = [738887, 738888])"
proof -
  let ?s = "Some (StrArg ''2024-01-02'')"
  let ?e = "Some (DateArg 738887)"
  have c: "connects example_db" by (simp add: example_db_def)
  have ds: "spec_date_of example_pd_dates (StrArg ''2024-01-02'') = Some 738887"
    by (simp add: example_pd_dates_def)
  have de: "spec_date_of example_pd_dates (DateArg 738887) = Some 738887"
    by simp
  have s: "\<forall>a. ?s = Some a \<longrightarrow> spec_date_of example_pd_dates a \<noteq> None"
    using ds by simp
  have e: "\<forall>a. ?e = Some a \<longrightarrow> spec_date_of example_pd_dates a \<noteq> None"
    by simp
  have n: "\<forall>a. (None :: date_arg option) = Some a \<longrightarrow> spec_date_of example_pd_dates a \<noteq> None"
    by simp
  from range_query [OF c s e, of "''TST''"]
  obtain df where f: "fetch_ohlcv_data example_pd_dates (Some example_db) ''TST'' ?s ?e = Inr df"
    and m: "mset (rows df) =
       image_mset read_row
         (filter_mset
            (\<lambda>x. fst (fst x) = ''TST'' \<and>
               spec_in_range (Option.bind ?s (spec_date_of example_pd_dates))
                 (Option.bind ?e (spec_date_of example_pd_dates)) (snd (fst x)))
            (mset (ohlcv_data example_db)))"
    by blast
  from m have "mset (rows df) =
      {#read_row ((''TST'', 738887), (Some 101, Some 106, Some 100, Some 104, Some 1200))#}"
    unfolding Option.bind.simps ds de by (simp add: example_db_def spec_in_range_def)
  then have first: "rows df =
      [read_row ((''TST'', 738887), (Some 101, Some 106, Some 100, Some 104, Some 1200))]"
    by simp
  from range_query [OF c s n, of "''TST''"]
  obtain df' where f': "fetch_ohlcv_data example_pd_dates (Some example_db) ''TST'' ?s None = Inr df'"
    and m': "mset (rows df') =
       image_mset read_row
         (filter_mset
            (\<lambda>x. fst (fst x) = ''TST'' \<and>
               spec_in_range (Option.bind ?s (spec_date_of example_pd_dates))
                 (Option.bind None (spec_date_of example_pd_dates)) (snd (fst x)))
            (mset (ohlcv_data example_db)))"
    and sorted: "sorted (map row_date (rows df'))"
    by blast
  from m' have "mset (rows df') =
      {#read_row ((''TST'', 738888), (Some 102, Some 107, Some 101, Some (1 / 10), Some 900)),
        read_row ((''TST'', 738887), (Some 101, Some 106, Some 100, Some 104, Some 1200))#}"
    unfolding Option.bind.simps ds by (simp add: example_db_def spec_in_range_def)
  from arg_cong [OF this, of "image_mset row_date"]
  have ms: "mset (map row_date (rows df')) = mset [738887, 738888]"
    by simp
  from properties_for_sort [OF ms sorted]
  have second: "map row_date (rows df') = [738887, 738888]"
    by simp
  have A: "\<exists>df. fetch_ohlcv_data example_pd_dates (Some example_db) ''TST'' ?s ?e = Inr df \<and>
      rows df =
        [read_row ((''TST'', 738887), (Some 101, Some 106, Some 100, Some 104, Some 1200))]"
    by (rule exI [of _ df]) (rule conjI [OF f first])
  have B: "\<exists>df. fetch_ohlcv_data example_pd_dates (Some example_db) ''TST'' ?s None = Inr df \<and>
      map row_date (rows df) = [738887, 738888]"
    by (rule exI [of _ df']) (rule conjI [OF f' second])
  show ?thesis
    by (intro conjI) (rule c ds de A B)+
qed

text \<open>
  The other bounds: the empty string bounds nothing, and a string that the library
  refuses makes the call raise, since lines 126 to 129 are outside the \<^verbatim>\<open>try\<close>.
\<close>

lemma fetch_ohlcv_data_empty_string:
  "fetch_ohlcv_data pd engine t (Some (StrArg [])) end_date =
     fetch_ohlcv_data pd engine t None end_date"
  "fetch_ohlcv_data pd engine t start_date (Some (StrArg [])) =
     fetch_ohlcv_data pd engine t start_date None"
  by (simp_all add: fetch_ohlcv_data_def split: option.splits sum.splits)

lemma fetch_ohlcv_data_refused_string:
  assumes "str \<noteq> []" and "datetime_of_obj pd (Str str) = Inl err"
  shows "fetch_ohlcv_data pd (Some db) t (Some (StrArg str)) end_date = Inl err"
  using assms by (simp add: fetch_ohlcv_data_def)

lemma example_fetch:
  "fetch_ohlcv_data example_pd (Some example_db) ''TST'' (Some (DateArg 738887)) None =
     Inr \<lparr>index_name = Some ''date'', index_is_datetime = True,
          columns = [''ticker'', ''open'', ''high'', ''low'', ''close'', ''volume''],
          rows =
            [(Stamp (Timestamp 738887 0),
              [(''ticker'', Str ''TST''), (''open'', Num 101), (''high'', Num 106),
               (''low'', Num 100), (''close'', Num 104), (''volume'', Num 1200)]),
             (Stamp (Timestamp 738888 0),
              [(''ticker'', Str ''TST''), (''open'', Num 102), (''high'', Num 107),
               (''low'', Num 101),
               (''close'', Num (3602879701896397 / 36028797018963968)),
               (''volume'', Num 900)])]\<rparr>"
  by code_simp

lemma cells_read_row:
  "map (cell_at (read_row ((t, d), (op, hi, lo, cl, vo)))) ohlcv_cols =
     map float_cell [op, hi, lo, cl, vo]"
  by (simp add: ohlcv_cols_def)

text \<open>
  C5 (as amended). Every row that \<open>fetch_ohlcv_data\<close> returns is the reading of a stored
  row of the ticker: its five numeric fields are float64 values, the doubles nearest to
  the stored decimals, and NaN for NULL. A stored value \<open>m * 2 ^ k\<close> with \<open>\<bar>m\<bar> < 2 ^ 53\<close> is
  returned exactly.
\<close>

theorem fetched_numbers_are_floats:
  assumes "fetch_ohlcv_data pd (Some db) t s e = Inr df" and "r \<in> set (rows df)"
  shows "(\<exists>d op hi lo cl vo.
       ((t, d), (op, hi, lo, cl, vo)) \<in> set (ohlcv_data db) \<and>
       fst r = Stamp (Timestamp d 0) \<and> cell_at r ''ticker'' = Str t \<and>
       map (cell_at r) ohlcv_cols = map float_cell [op, hi, lo, cl, vo]) \<and>
    float_cell None = NA \<and>
    (\<forall>x. float_cell (Some x) = Num (float64 x)) \<and>
    (\<forall>x m k. x = of_int m * pow2 k \<and> \<bar>m\<bar> < 2 ^ 53 \<longrightarrow> float_cell (Some x) = Num x)"
proof -
  obtain lo' hi' where "rows df = map read_row (select_ohlcv t lo' hi' (ohlcv_data db))"
    using fetch_ohlcv_data_rows [OF assms(1)] by blast
  with assms(2) obtain x where x: "x \<in> set (select_ohlcv t lo' hi' (ohlcv_data db))"
    and r: "r = read_row x"
    by auto
  from x have mem: "x \<in> set (ohlcv_data db)" and t: "fst (fst x) = t"
    by (simp_all add: select_ohlcv_def)
  obtain d op hi lo cl vo where xe: "x = ((t, d), (op, hi, lo, cl, vo))"
    using t by (metis prod.collapse)
  have "((t, d), (op, hi, lo, cl, vo)) \<in> set (ohlcv_data db) \<and>
       fst r = Stamp (Timestamp d 0) \<and> cell_at r ''ticker'' = Str t \<and>
       map (cell_at r) ohlcv_cols = map float_cell [op, hi, lo, cl, vo]"
    using mem unfolding r xe cells_read_row by simp
  then have first: "\<exists>d op hi lo cl vo.
       ((t, d), (op, hi, lo, cl, vo)) \<in> set (ohlcv_data db) \<and>
       fst r = Stamp (Timestamp d 0) \<and> cell_at r ''ticker'' = Str t \<and>
       map (cell_at r) ohlcv_cols = map float_cell [op, hi, lo, cl, vo]"
    by blast
  have "float_cell (Some x) = Num x" if "x = of_int m * pow2 k \<and> \<bar>m\<bar> < 2 ^ 53" for x m k
    using float64_exact [of x m k] that by simp
  with first show ?thesis by simp
qed

theorem fetched_numbers_are_floats_witness:
  "fetch_ohlcv_data example_pd (Some example_db) ''TST'' (Some (DateArg 738887)) None =
     Inr \<lparr>index_name = Some ''date'', index_is_datetime = True,
          columns = [''ticker'', ''open'', ''high'', ''low'', ''close'', ''volume''],
          rows =
            [(Stamp (Timestamp 738887 0),
              [(''ticker'', Str ''TST''), (''open'', Num 101), (''high'', Num 106),
               (''low'', Num 100), (''close'', Num 104), (''volume'', Num 1200)]),
             (Stamp (Timestamp 738888 0),
              [(''ticker'', Str ''TST''), (''open'', Num 102), (''high'', Num 107),
               (''low'', Num 101),
               (''close'', Num (3602879701896397 / 36028797018963968)),
               (''volume'', Num 900)])]\<rparr> \<and>
   (207 / 2 :: rat) = of_int 207 * pow2 (- 1) \<and> \<bar>207 :: int\<bar> < 2 ^ 53 \<and>
   float_cell (Some (207 / 2)) = Num (207 / 2)"
proof -
  have rep: "(207 / 2 :: rat) = of_int 207 * pow2 (- 1) \<and> \<bar>207 :: int\<bar> < 2 ^ 53"
    by (simp add: pow2_def)
  have "(Stamp (Timestamp 738887 0),
              [(''ticker'', Str ''TST''), (''open'', Num 101), (''high'', Num 106),
               (''low'', Num 100), (''close'', Num 104), (''volume'', Num 1200)])
      \<in> set (rows \<lparr>index_name = Some ''date'', index_is_datetime = True,
          columns = [''ticker'', ''open'', ''high'', ''low'', ''close'', ''volume''],
          rows =
            [(Stamp (Timestamp 738887 0),
              [(''ticker'', Str ''TST''), (''open'', Num 101), (''high'', Num 106),
               (''low'', Num 100), (''close'', Num 104), (''volume'', Num 1200)]),
             (Stamp (Timestamp 738888 0),
              [(''ticker'', Str ''TST''), (''open'', Num 102), (''high'', Num 107),
               (''low'', Num 101),
               (''close'', Num (3602879701896397 / 36028797018963968)),
               (''volume'', Num 900)])]\<rparr>)"
    by simp
  from fetched_numbers_are_floats [OF example_fetch this]
  have "\<forall>x m k. x = of_int m * pow2 k \<and> \<bar>m\<bar> < 2 ^ 53 \<longrightarrow> float_cell (Some x) = Num x"
    by blast
  with rep have "float_cell (Some (207 / 2)) = Num (207 / 2)"
    by blast
  with rep example_fetch show ?thesis by blast
qed

text \<open>
  C5 (as stated) fails: the stored close of \<open>(TST, 2024-01-03)\<close> is the decimal \<open>0.1\<close>;
  the close that comes back is the double nearest to it, which is another number.
\<close>

theorem fetched_close_counterexample:
  "map_of (ohlcv_data example_db) (''TST'', 738888) =
     Some (Some 102, Some 107, Some 101, Some (1 / 10), Some 900) \<and>
   fetch_ohlcv_data example_pd (Some example_db) ''TST'' (Some (DateArg 738888)) None =
     Inr \<lparr>index_name = Some ''date'', index_is_datetime = True,
          columns = [''ticker'', ''open'', ''high'', ''low'', ''close'', ''volume''],
          rows =
            [(Stamp (Timestamp 738888 0),
              [(''ticker'', Str ''TST''), (''open'', Num 102), (''high'', Num 107),
               (''low'', Num 101),
               (''close'', Num (3602879701896397 / 36028797018963968)),
               (''volume'', Num 900)])]\<rparr> \<and>
   Num (3602879701896397 / 36028797018963968) \<noteq> Num (1 / 10)"
  by code_simp

end
